theory Spec2Isabelle
  imports Main "HOL-Library.Sublist" "HOL-Library.Multiset"
begin

section \<open>The content loader: authors, collections, posts\<close>

text \<open>
  A shallow embedding of the content loader module (the file that exports
  \<open>unicorns\<close>, \<open>collections\<close>, \<open>posts\<close> and \<open>tags\<close>).

  Strings are \<open>char list\<close>; a \<open>char\<close> stands for one code unit in the range
  \<open>0x00 .. 0xFF\<close>. Built-ins and packages the module calls but does not define
  (\<open>fs\<close>, \<open>junk\<close>, \<open>gray-matter\<close>, \<open>dayjs\<close>, \<open>Date\<close>, \<open>URL\<close>) are fields of an
  environment record that every function takes as an argument. Image metadata
  (\<open>getImageSize\<close>, \<open>getFullRelativePath\<close>) and role lookup are left out: no
  property below reads them.
\<close>

subsection \<open>String primitives of the language\<close>

text \<open>The characters matched by \<open>\s\<close> and removed by \<open>trim\<close>, in this code-unit range.\<close>

definition isWhiteSpace :: "char \<Rightarrow> bool" where
  "isWhiteSpace c \<longleftrightarrow>
     c \<in> set [CHR 0x09, CHR 0x0A, CHR 0x0B, CHR 0x0C, CHR 0x0D, CHR 0x20, CHR 0xA0]"

text \<open>The characters that \<open>.\<close> does not match.\<close>

definition isLineTerminator :: "char \<Rightarrow> bool" where
  "isLineTerminator c \<longleftrightarrow> c = CHR 0x0A \<or> c = CHR 0x0D"

definition trim :: "string \<Rightarrow> string" where
  "trim s = rev (dropWhile isWhiteSpace (rev (dropWhile isWhiteSpace s)))"

text \<open>
  \<open>s.split(d)\<close> for a one-character separator: the pieces between the
  occurrences of \<open>d\<close>, empty pieces included; \<open>cur\<close> is the piece being read.
\<close>

fun splitOn :: "char \<Rightarrow> string \<Rightarrow> string \<Rightarrow> string list" where
  "splitOn d cur [] = [cur]"
| "splitOn d cur (c # cs) =
     (if c = d then cur # splitOn d [] cs else splitOn d (cur @ [c]) cs)"

text \<open>
  \<open>s.split(/\s+/)\<close>: the pieces between the maximal runs of whitespace. A run
  at the start or at the end of \<open>s\<close> leaves an empty piece there, and the empty
  string gives the one piece \<open>""\<close>.
\<close>

function splitWhitespace :: "string \<Rightarrow> string \<Rightarrow> string list" where
  "splitWhitespace cur [] = [cur]"
| "splitWhitespace cur (c # cs) =
     (if isWhiteSpace c then cur # splitWhitespace [] (dropWhile isWhiteSpace cs)
      else splitWhitespace (cur @ [c]) cs)"
  by pat_completeness auto
termination
  by (relation "measure (\<lambda>(cur, s). length s)")
     (auto simp: le_imp_less_Suc length_dropWhile_le)

text \<open>\<open>xs.at(i)\<close>: a negative index counts from the end; out of range is \<open>undefined\<close>.\<close>

definition at :: "'a list \<Rightarrow> int \<Rightarrow> 'a option" where
  "at xs i =
     (let n = int (length xs); k = (if i < 0 then n + i else i)
      in if 0 \<le> k \<and> k < n then Some (xs ! nat k) else None)"

text \<open>\<open>xs[i]\<close> on an array of possibly undefined entries.\<close>

definition elementAt :: "'a option list \<Rightarrow> nat \<Rightarrow> 'a option" where
  "elementAt xs i = (if i < length xs then xs ! i else None)"

subsection \<open>Author enrichment\<close>

text \<open>
  The match of \<open>/^.*[/@](?!$)/\<close> at the start of \<open>s\<close>: \<open>matchPrefix s\<close> is what
  follows the match, \<open>None\<close> when there is no match. The greedy \<open>.*\<close> first
  tries to take the next character (any but a line terminator) and go on;
  only when that fails is the character tried as the \<open>[/@]\<close>, which must not be
  the last one of the string.
\<close>

fun matchPrefix :: "string \<Rightarrow> string option" where
  "matchPrefix [] = None"
| "matchPrefix (c # cs) =
     (if isLineTerminator c then None
      else case matchPrefix cs of
             Some r \<Rightarrow> Some r
           | None \<Rightarrow> if (c = CHR ''/'' \<or> c = CHR ''@'') \<and> cs \<noteq> [] then Some cs else None)"

text \<open>\<open>s.trim().replace(/^.*[/@](?!$)/, "")\<close>\<close>

definition normalizeString :: "string \<Rightarrow> string" where
  "normalizeString s = (let t = trim s in case matchPrefix t of Some r \<Rightarrow> r | None \<Rightarrow> t)"

text \<open>\<open>username?.trim()?.replace(...)\<close>: \<open>undefined\<close> stays \<open>undefined\<close>.\<close>

definition normalizeUsername :: "string option \<Rightarrow> string option" where
  "normalizeUsername username = map_option normalizeString username"

record socials =
  twitter :: "string option"
  github :: "string option"
  gitlab :: "string option"
  linkedIn :: "string option"
  twitch :: "string option"
  dribbble :: "string option"
  threads :: "string option"
  cohost :: "string option"
  mastodon :: "string option"
  youtube :: "string option"

record unicorn_info =
  unicornId :: string
  socials :: socials

text \<open>
  The exception of the build: \<open>new URL\<close> rejected the mastodon value of the
  author. The two fields are what the diagnostic printed before the rethrow
  names: the author's id and the value.
\<close>

datatype error = InvalidMastodonURL string string

text \<open>The eight assignments \<open>socials.x = normalizeUsername(socials.x)\<close>.\<close>

definition normalizeHandles :: "socials \<Rightarrow> socials" where
  "normalizeHandles s =
     s\<lparr>twitter := normalizeUsername (twitter s),
       github := normalizeUsername (github s),
       gitlab := normalizeUsername (gitlab s),
       linkedIn := normalizeUsername (linkedIn s),
       twitch := normalizeUsername (twitch s),
       dribbble := normalizeUsername (dribbble s),
       threads := normalizeUsername (threads s),
       cohost := normalizeUsername (cohost s)\<rparr>"

text \<open>
  The \<open>try\<close> block, entered with a truthy value only (neither \<open>undefined\<close> nor
  the empty string): \<open>newURL v\<close> is \<open>new URL(v).toString()\<close>, \<open>None\<close> when the
  constructor throws.
\<close>

definition mastodonStep ::
  "(string \<Rightarrow> string option) \<Rightarrow> string \<Rightarrow> socials \<Rightarrow> error + socials" where
  "mastodonStep newURL uid s =
     (case mastodon s of
        None \<Rightarrow> Inr s
      | Some m \<Rightarrow>
          if m = [] then Inr s
          else (case newURL m of
                  None \<Rightarrow> Inl (InvalidMastodonURL uid m)
                | Some u \<Rightarrow> Inr (s\<lparr>mastodon := Some u\<rparr>)))"

text \<open>
  The \<open>if (socials.youtube)\<close> block; the test for \<open>@\<close> reads the value as
  entered, the handle is its normalization.
\<close>

definition youtubeStep :: "socials \<Rightarrow> socials" where
  "youtubeStep s =
     (case youtube s of
        None \<Rightarrow> s
      | Some y \<Rightarrow>
          if y = [] then s
          else (let username = normalizeString y
                in s\<lparr>youtube := Some (if CHR ''@'' \<in> set y
                                      then ''https://www.youtube.com/@'' @ username
                                      else ''https://www.youtube.com/channel/'' @ username)\<rparr>))"

text \<open>The callback of \<open>unicornsRaw.map\<close>.\<close>

definition enrichUnicorn ::
  "(string \<Rightarrow> string option) \<Rightarrow> unicorn_info \<Rightarrow> error + unicorn_info" where
  "enrichUnicorn newURL unicorn =
     (case mastodonStep newURL (unicornId unicorn) (normalizeHandles (socials unicorn)) of
        Inl e \<Rightarrow> Inl e
      | Inr s \<Rightarrow> Inr (unicorn\<lparr>socials := youtubeStep s\<rparr>))"

text \<open>\<open>xs.map(f)\<close> for a callback that may throw: the first exception ends the map.\<close>

fun mapThrowing :: "('a \<Rightarrow> error + 'b) \<Rightarrow> 'a list \<Rightarrow> error + 'b list" where
  "mapThrowing f [] = Inr []"
| "mapThrowing f (x # xs) =
     (case f x of
        Inl e \<Rightarrow> Inl e
      | Inr y \<Rightarrow> (case mapThrowing f xs of Inl e \<Rightarrow> Inl e | Inr ys \<Rightarrow> Inr (y # ys)))"

definition fullUnicorns ::
  "(string \<Rightarrow> string option) \<Rightarrow> unicorn_info list \<Rightarrow> error + unicorn_info list" where
  "fullUnicorns newURL unicornsRaw = mapThrowing (enrichUnicorn newURL) unicornsRaw"

subsection \<open>Reference data and the environment\<close>

record license_info =
  licenseId :: string

record tag_info =
  explainerHtml :: "string option"
  explainerType :: "string option"

text \<open>
  The frontmatter of a collection file. Its declaration is not among the
  sources; these are the fields the loader reads, and the title.
\<close>

record raw_collection_info =
  title :: string
  published :: string
  authors :: "string list"
  coverImg :: string

text \<open>
  Collection objects live in a store (a list, the address of an object is its
  position), since posts refer to them while the module later builds new ones.
  \<open>posts\<close> is \<open>None\<close> while the property is absent from the object.
\<close>

type_synonym addr = nat

record 'p collection_info = raw_collection_info +
  slug :: string
  locales :: "string option list"
  locale' :: "string option"
  authorsMeta :: "unicorn_info option list"
  posts :: "'p list option"

record raw_post_info =
  title :: string
  published :: string
  authors :: "string list"
  tags :: "string list"
  attached :: "string list"
  license :: string
  description :: "string option"
  edited :: "string option"
  collection :: "string option"
  order :: "int option"
  originalLink :: "string option"
  noindex :: "bool option"

record post_info = raw_post_info +
  slug :: string
  locales :: "string option list"
  locale' :: "string option"
  publishedMeta :: string
  editedMeta :: "string option"
  authorsMeta :: "unicorn_info option list"
  licenseMeta :: "license_info option"
  collectionMeta :: "addr option"
  socialImg :: string
  bannerImg :: "string option"
  wordCount :: nat

type_synonym collection = "post_info collection_info"

text \<open>
  What the module takes from outside: the working directory and the file
  system, the packages, the built-in constructors and the data files.
  \<open>newDate s\<close> is the time value of \<open>new Date(s)\<close>, \<open>None\<close> for an invalid date;
  \<open>newURL s\<close> is \<open>new URL(s).toString()\<close>, \<open>None\<close> when the constructor throws;
  \<open>dayjsFormat s\<close> is \<open>dayjs(s).format("MMMM D, YYYY")\<close>; \<open>tagsMap\<close> is the map
  \<open>tags\<close> after the loop over \<open>tagsRaw\<close>; an entry of \<open>collectionMapping\<close> is its
  slug and the rest of its fields.
\<close>

record env =
  cwd :: string
  readdirSync :: "string \<Rightarrow> string list"
  readFileSync :: "string \<Rightarrow> string"
  isNotJunk :: "string \<Rightarrow> bool"
  matterCollection :: "string \<Rightarrow> raw_collection_info"
  matterPost :: "string \<Rightarrow> raw_post_info"
  newDate :: "string \<Rightarrow> int option"
  newURL :: "string \<Rightarrow> string option"
  dayjsFormat :: "string \<Rightarrow> string"
  unicornsRaw :: "unicorn_info list"
  licensesRaw :: "license_info list"
  tagsMap :: "string \<rightharpoonup> tag_info"
  collectionMapping :: "(string \<times> raw_collection_info) list"

text \<open>\<open>join\<close> of \<open>path\<close>, on segments that need no normalization.\<close>

fun join :: "string list \<Rightarrow> string" where
  "join [] = ''.''"
| "join [s] = s"
| "join (s # t # ss) = s @ ''/'' @ join (t # ss)"

definition postsDirectory :: "env \<Rightarrow> string" where
  "postsDirectory e = join [cwd e, ''content/blog'']"

definition collectionsDirectory :: "env \<Rightarrow> string" where
  "collectionsDirectory e = join [cwd e, ''content/collections'']"

subsection \<open>Index files and their locales\<close>

text \<open>
  \<open>fs.readdirSync(dir).filter(isNotJunk).filter((name) =>
  name.startsWith("index.") && name.endsWith(".md"))\<close>
\<close>

definition indexFiles :: "env \<Rightarrow> string \<Rightarrow> string list" where
  "indexFiles e dir =
     filter (\<lambda>name. prefix ''index.'' name \<and> suffix ''.md'' name)
       (filter (isNotJunk e) (readdirSync e dir))"

text \<open>
  \<open>files.map((name) => name.split(".").at(-2)).map((lang) => (lang === "index"
  ? "en" : lang))\<close>
\<close>

definition localesOf :: "string list \<Rightarrow> string option list" where
  "localesOf files =
     map (\<lambda>lang. if lang = Some ''index'' then Some ''en'' else lang)
       (map (\<lambda>name. at (splitOn (CHR ''.'') [] name) (- 2)) files)"

text \<open>What the two maps make of one name.\<close>

definition localeOfName :: "string \<Rightarrow> string option" where
  "localeOfName name =
     (let lang = at (splitOn (CHR ''.'') [] name) (- 2)
      in if lang = Some ''index'' then Some ''en'' else lang)"

subsection \<open>Sorting by date\<close>

text \<open>
  \<open>date1 > date2\<close> on two \<open>Date\<close> objects compares their time values and is
  false as soon as one of them is invalid.
\<close>

definition dateGreater :: "int option \<Rightarrow> int option \<Rightarrow> bool" where
  "dateGreater date1 date2 =
     (case date1 of
        None \<Rightarrow> False
      | Some t1 \<Rightarrow> (case date2 of None \<Rightarrow> False | Some t2 \<Rightarrow> t1 > t2))"

text \<open>
  \<open>xs.sort(cmp)\<close> is a built-in of the engine, which sorts an array of fewer
  than 64 elements in two steps, asking the comparator only whether
  \<open>cmp x y < 0\<close>. The first step finds the run the array starts with: the
  longest prefix in which every element compares as \<open>>= 0\<close> with the one before
  it, or, when the second element compares as \<open>< 0\<close> with the first, the longest
  prefix in which every element compares as \<open>< 0\<close> with the one before it; a
  run of the second kind is reversed. \<open>countRun\<close> counts the elements that
  continue a run after its second element.
\<close>

fun countRun :: "('a \<Rightarrow> 'a \<Rightarrow> int) \<Rightarrow> bool \<Rightarrow> 'a \<Rightarrow> 'a list \<Rightarrow> nat" where
  "countRun cmp isDescending previous [] = 0"
| "countRun cmp isDescending previous (current # rest) =
     (let order = cmp current previous
      in if (if isDescending then order \<ge> 0 else order < 0) then 0
         else Suc (countRun cmp isDescending current rest))"

definition countAndMakeRun :: "('a \<Rightarrow> 'a \<Rightarrow> int) \<Rightarrow> 'a list \<Rightarrow> nat \<times> 'a list" where
  "countAndMakeRun cmp xs =
     (case xs of
        elementHigh # elementLow # rest \<Rightarrow>
          (let isDescending = cmp elementLow elementHigh < 0;
               runLength = 2 + countRun cmp isDescending elementLow rest
           in (runLength,
               if isDescending then rev (take runLength xs) @ drop runLength xs else xs))
      | _ \<Rightarrow> (length xs, xs))"

text \<open>
  The second step inserts each element behind the run into the part already
  placed, at the position a binary search finds.
\<close>

function binarySearch :: "('a \<Rightarrow> 'a \<Rightarrow> int) \<Rightarrow> 'a \<Rightarrow> 'a list \<Rightarrow> nat \<Rightarrow> nat \<Rightarrow> nat" where
  "binarySearch cmp pivot xs left right =
     (if left < right
      then (let mid = left + (right - left) div 2
            in if cmp pivot (xs ! mid) < 0 then binarySearch cmp pivot xs left mid
               else binarySearch cmp pivot xs (mid + 1) right)
      else left)"
  by pat_completeness auto
termination
  by (relation "measure (\<lambda>(cmp, pivot, xs, left, right). right - left)") auto

declare binarySearch.simps [simp del]

fun binaryInsertionSort :: "('a \<Rightarrow> 'a \<Rightarrow> int) \<Rightarrow> 'a list \<Rightarrow> 'a list \<Rightarrow> 'a list" where
  "binaryInsertionSort cmp placed [] = placed"
| "binaryInsertionSort cmp placed (pivot # rest) =
     (let left = binarySearch cmp pivot placed 0 (length placed)
      in binaryInsertionSort cmp (take left placed @ pivot # drop left placed) rest)"

text \<open>
  An array of 64 elements or more is cut into several runs, which the engine
  merges. The merge is not modelled: \<open>sortArray\<close> takes the two steps on an
  array of any length. Where the answers of the comparator order the elements
  by a key, the result is the stable sort by that key (\<open>sortArray_stable\<close>
  below), the one list that is sorted and keeps elements of equal key in
  their order, whatever the length.
\<close>

definition sortArray :: "('a \<Rightarrow> 'a \<Rightarrow> int) \<Rightarrow> 'a list \<Rightarrow> 'a list" where
  "sortArray cmp xs =
     (case countAndMakeRun cmp xs of
        (runLength, ys) \<Rightarrow> binaryInsertionSort cmp (take runLength ys) (drop runLength ys))"

subsection \<open>The collection aggregator\<close>

text \<open>The callback of \<open>slugs.flatMap\<close> in \<open>getCollections\<close>.\<close>

definition collectionsOfSlug :: "env \<Rightarrow> unicorn_info list \<Rightarrow> string \<Rightarrow> collection list" where
  "collectionsOfSlug e us sl =
     (let files = indexFiles e (join [collectionsDirectory e, sl]);
          locales = localesOf files
      in map (\<lambda>(i, file).
                let fileContents = readFileSync e (join [collectionsDirectory e, sl, file]);
                    frontmatter = matterCollection e fileContents;
                    authorsMeta =
                      map (\<lambda>authorId. find (\<lambda>u. unicornId u = authorId) us)
                        (raw_collection_info.authors frontmatter)
                in raw_collection_info.extend frontmatter
                     (collection_info.fields sl locales (elementAt locales i) authorsMeta None))
           (enumerate 0 files))"

text \<open>The callback of \<open>collectionMapping.map\<close>.\<close>

definition collectionOfMapping ::
  "unicorn_info list \<Rightarrow> string \<times> raw_collection_info \<Rightarrow> collection" where
  "collectionOfMapping us entry =
     (case entry of (sl, frontmatter) \<Rightarrow>
        let authorsMeta =
              map (\<lambda>authorId. find (\<lambda>u. unicornId u = authorId) us)
                (raw_collection_info.authors frontmatter)
        in raw_collection_info.extend frontmatter
             (collection_info.fields sl [Some ''en''] (Some ''en'') authorsMeta None))"

definition collectionCompare :: "env \<Rightarrow> collection \<Rightarrow> collection \<Rightarrow> int" where
  "collectionCompare e collection1 collection2 =
     (let date1 = newDate e (raw_collection_info.published collection1);
          date2 = newDate e (raw_collection_info.published collection2)
      in if dateGreater date1 date2 then - 1 else 1)"

definition getCollections :: "env \<Rightarrow> unicorn_info list \<Rightarrow> collection list" where
  "getCollections e us =
     (let slugs = filter (isNotJunk e) (readdirSync e (collectionsDirectory e));
          collections = concat (map (collectionsOfSlug e us) slugs);
          collectionMappingFilled = map (collectionOfMapping us) (collectionMapping e);
          allCollections = collections @ collectionMappingFilled
      in sortArray (collectionCompare e) allCollections)"

subsection \<open>The post aggregator\<close>

definition tagWarning :: "string \<Rightarrow> string \<Rightarrow> string" where
  "tagWarning sl tag =
     sl @ '': Tag '' @ [CHR 0x27] @ tag @ [CHR 0x27] @
     '' is not specified in content/data/tags.json! Filtering...''"

text \<open>
  \<open>[...frontmatter.tags].filter(...)\<close>: the tags kept, and the lines the
  callback wrote with \<open>console.warn\<close>, in the order it wrote them.
\<close>

fun filterTags :: "(string \<rightharpoonup> tag_info) \<Rightarrow> string \<Rightarrow> string list \<Rightarrow> string list \<times> string list" where
  "filterTags tm sl [] = ([], [])"
| "filterTags tm sl (tag # rest) =
     (case filterTags tm sl rest of
        (kept, warned) \<Rightarrow>
          if tm tag \<noteq> None then (tag # kept, warned)
          else (kept, tagWarning sl tag # warned))"

definition wordCountOf :: "string \<Rightarrow> nat" where
  "wordCountOf fileContents = length (splitWhitespace [] fileContents)"

text \<open>
  The callback of \<open>files.map\<close> in \<open>getPosts\<close>: the post of one file and the
  warnings written while it was built. \<open>hp\<close> and \<open>colls\<close> are the store
  and the module variable \<open>collections\<close> (a list of addresses) at that time.
  \<open>a && b\<close> is \<open>a\<close> itself when \<open>a\<close> is the empty string; an empty \<open>collection\<close>
  leaves \<open>collectionMeta\<close> without a collection, which is \<open>None\<close> here.
\<close>

definition postOfFile ::
  "env \<Rightarrow> unicorn_info list \<Rightarrow> collection list \<Rightarrow> addr list \<Rightarrow> string \<Rightarrow>
   string option list \<Rightarrow> nat \<Rightarrow> string \<Rightarrow> post_info \<times> string list" where
  "postOfFile e us hp colls sl ls i file =
     (let fileContents = readFileSync e (join [postsDirectory e, sl, file]);
          frontmatter = matterPost e fileContents;
          wordCount = wordCountOf fileContents;
          (frontmatterTags, warned) = filterTags (tagsMap e) sl (tags frontmatter)
      in ((raw_post_info.extend frontmatter
            (post_info.fields sl ls (elementAt ls i)
               (if published frontmatter = [] then [] else dayjsFormat e (published frontmatter))
               (case edited frontmatter of
                  None \<Rightarrow> None
                | Some d \<Rightarrow> if d = [] then Some [] else Some (dayjsFormat e d))
               (map (\<lambda>authorId. find (\<lambda>u. unicornId u = authorId) us) (authors frontmatter))
               (if license frontmatter = [] then None
                else find (\<lambda>l. licenseId l = license frontmatter) (licensesRaw e))
               (case collection frontmatter of
                  None \<Rightarrow> None
                | Some c \<Rightarrow>
                    if c = [] then None
                    else find (\<lambda>a. collection_info.slug (hp ! a) = c) colls)
               (''/generated/'' @ sl @ ''.twitter-preview.jpg'')
               None
               wordCount))\<lparr>tags := frontmatterTags\<rparr>,
          warned))"

text \<open>The callback of \<open>slugs.flatMap\<close> in \<open>getPosts\<close>.\<close>

definition postsOfSlug ::
  "env \<Rightarrow> unicorn_info list \<Rightarrow> collection list \<Rightarrow> addr list \<Rightarrow> string \<Rightarrow>
   (post_info \<times> string list) list" where
  "postsOfSlug e us hp colls sl =
     (let files = indexFiles e (join [postsDirectory e, sl]);
          locales = localesOf files
      in map (\<lambda>(i, file). postOfFile e us hp colls sl locales i file)
           (enumerate 0 files))"

definition postCompare :: "env \<Rightarrow> post_info \<Rightarrow> post_info \<Rightarrow> int" where
  "postCompare e post1 post2 =
     (let date1 = newDate e (published post1);
          date2 = newDate e (published post2)
      in if dateGreater date1 date2 then - 1 else 1)"

text \<open>
  \<open>paginationCount\<close> starts as the object \<open>{}\<close>. Reading a property that the
  object does not have itself gives what \<open>Object.prototype\<close> has under that
  name, and \<open>undefined\<close> only when it has nothing. These are the names it has.
\<close>

definition inheritedProperty :: "string \<Rightarrow> bool" where
  "inheritedProperty name \<longleftrightarrow>
     name \<in> set [''constructor'', ''__defineGetter__'', ''__defineSetter__'',
       ''hasOwnProperty'', ''__lookupGetter__'', ''__lookupSetter__'', ''isPrototypeOf'',
       ''propertyIsEnumerable'', ''toString'', ''valueOf'', ''__proto__'',
       ''toLocaleString'']"

text \<open>The property name a locale is read and written under.\<close>

definition propertyKey :: "string option \<Rightarrow> string" where
  "propertyKey l = (case l of None \<Rightarrow> ''undefined'' | Some name \<Rightarrow> name)"

text \<open>
  What \<open>count\<close> can be: a number, or a string. \<open>x + 1\<close> is a string as soon as
  \<open>x\<close> is a function, an object or a string, and none of these strings reads
  as a number, so that \<open>count % 8\<close> is \<open>NaN\<close> for them.
\<close>

datatype count = Number nat | Text

text \<open>
  The loop over the sorted posts; \<open>own\<close> holds the properties the object has
  itself. \<open>paginationCount[l] + 1 || 0\<close> is \<open>0\<close> when the property is \<open>undefined\<close>
  (\<open>undefined + 1\<close> is \<open>NaN\<close>), the number plus one when it is a number, and a
  string otherwise. The assignment makes the property the object's own,
  except under the name \<open>__proto__\<close>, where it is handed to a setter that
  ignores a value that is not an object.
\<close>

fun bannerLoop :: "(string \<rightharpoonup> count) \<Rightarrow> post_info list \<Rightarrow> post_info list" where
  "bannerLoop own [] = []"
| "bannerLoop own (post # rest) =
     (let name = propertyKey (locale' post);
          count = (case own name of
                     Some (Number c) \<Rightarrow> Number (c + 1)
                   | Some Text \<Rightarrow> Text
                   | None \<Rightarrow> if inheritedProperty name then Text else Number 0);
          own' = (if name = ''__proto__'' then own else own(name \<mapsto> count));
          index = (case count of Number c \<Rightarrow> Some (c mod 8) | Text \<Rightarrow> None);
          post' = (if index = Some 0 \<or> index = Some 4
                   then post\<lparr>bannerImg := Some (''/generated/'' @ slug post @ ''.banner.jpg'')\<rparr>
                   else post)
      in post' # bannerLoop own' rest)"

text \<open>\<open>getPosts\<close>: the posts, and what it wrote with \<open>console.warn\<close>.\<close>

definition getPosts ::
  "env \<Rightarrow> unicorn_info list \<Rightarrow> collection list \<Rightarrow> addr list \<Rightarrow> post_info list \<times> string list" where
  "getPosts e us hp colls =
     (let slugs = filter (isNotJunk e) (readdirSync e (postsDirectory e));
          built = concat (map (postsOfSlug e us hp colls) slugs);
          posts = sortArray (postCompare e) (map fst built)
      in (bannerLoop Map.empty posts, concat (map snd built)))"

subsection \<open>The cross-linker and the module as a whole\<close>

text \<open>
  \<open>collections = collections.map((collection) => ({...collection, posts:
  posts.filter(...)}))\<close>: every object of the result is a new one, allocated
  behind the objects that exist; the variable then holds the new addresses.
\<close>

definition crossLink ::
  "collection list \<Rightarrow> addr list \<Rightarrow> post_info list \<Rightarrow> collection list \<times> addr list" where
  "crossLink hp colls ps =
     (let linked =
            map (\<lambda>a. (hp ! a)\<lparr>collection_info.posts :=
                        Some (filter (\<lambda>post. collection post = Some (collection_info.slug (hp ! a)))
                                ps)\<rparr>)
              colls
      in (hp @ linked, [length hp ..< length hp + length linked]))"

text \<open>What the module exports, the store of collection objects and the console.\<close>

record exports =
  unicorns :: "unicorn_info list"
  heap :: "collection list"
  collections :: "addr list"
  posts :: "post_info list"
  warnings :: "string list"

text \<open>
  The module body. \<open>getCollections\<close> creates its objects in an empty store, in
  the order of its result; an exception in \<open>fullUnicorns\<close> ends the evaluation
  of the module.
\<close>

definition loadContent :: "env \<Rightarrow> error + exports" where
  "loadContent e =
     (case fullUnicorns (newURL e) (unicornsRaw e) of
        Inl err \<Rightarrow> Inl err
      | Inr us \<Rightarrow>
          (let heap0 = getCollections e us;
               collections0 = [0 ..< length heap0];
               (ps, warned) = getPosts e us heap0 collections0;
               (heap1, collections1) = crossLink heap0 collections0 ps
           in Inr \<lparr>unicorns = us, heap = heap1, collections = collections1,
                    posts = ps, warnings = warned\<rparr>))"

subsection \<open>Whitespace-separated tokens\<close>

text \<open>
  Following the words of the specification rather than the source: the
  whitespace-separated tokens of a text are its maximal runs of characters
  that are not whitespace. \<open>cur\<close> is the token being read.
\<close>

fun tokensFrom :: "string \<Rightarrow> string \<Rightarrow> string list" where
  "tokensFrom cur [] = (if cur = [] then [] else [cur])"
| "tokensFrom cur (c # cs) =
     (if isWhiteSpace c
      then (if cur = [] then tokensFrom [] cs else cur # tokensFrom [] cs)
      else tokensFrom (cur @ [c]) cs)"

definition whitespaceTokens :: "string \<Rightarrow> string list" where
  "whitespaceTokens s = tokensFrom [] s"

subsection \<open>Lists in date order\<close>

text \<open>
  Following the words of the specification rather than the source: a list of
  published strings is ordered by non-increasing date when no entry has a
  strictly later date than an entry before it. \<open>D\<close> reads a string as a date.
\<close>

definition nonIncreasingDates :: "(string \<Rightarrow> int option) \<Rightarrow> string list \<Rightarrow> bool" where
  "nonIncreasingDates D ss = sorted_wrt (\<lambda>s t. \<not> dateGreater (D t) (D s)) ss"

subsection \<open>A small site\<close>

text \<open>Concrete inputs, on which the functions above are evaluated further down.\<close>

definition noSocials :: socials where
  "noSocials = \<lparr>twitter = None, github = None, gitlab = None, linkedIn = None,
     twitch = None, dribbble = None, threads = None, cohost = None, mastodon = None,
     youtube = None\<rparr>"

definition demoURL :: "string \<Rightarrow> string option" where
  "demoURL s =
     (if s = ''HTTPS://Fosstodon.org/@linus'' then Some ''https://fosstodon.org/@linus''
      else None)"

definition linus :: unicorn_info where
  "linus = \<lparr>unicornId = ''linus'',
     socials = noSocials\<lparr>twitter := Some ''@torvalds'',
       github := Some ''https://github.com/torvalds'',
       gitlab := Some ''github.com/torvalds/'',
       twitch := Some [],
       cohost := Some ''torvalds'',
       mastodon := Some ''HTTPS://Fosstodon.org/@linus'',
       youtube := Some ''@somechannel''\<rparr>\<rparr>"

definition ada :: unicorn_info where
  "ada = \<lparr>unicornId = ''ada'',
     socials = noSocials\<lparr>mastodon := Some ''not a url'', youtube := Some ''channel/UC123''\<rparr>\<rparr>"

definition grace :: unicorn_info where
  "grace = \<lparr>unicornId = ''grace'',
     socials = noSocials\<lparr>youtube := Some ''channel/UC123''\<rparr>\<rparr>"

definition linusEnriched :: unicorn_info where
  "linusEnriched = \<lparr>unicornId = ''linus'',
     socials = noSocials\<lparr>twitter := Some ''torvalds'',
       github := Some ''torvalds'',
       gitlab := Some ''torvalds/'',
       twitch := Some [],
       cohost := Some ''torvalds'',
       mastodon := Some ''https://fosstodon.org/@linus'',
       youtube := Some ''https://www.youtube.com/@somechannel''\<rparr>\<rparr>"

definition graceEnriched :: unicorn_info where
  "graceEnriched = \<lparr>unicornId = ''grace'',
     socials = noSocials\<lparr>youtube := Some ''https://www.youtube.com/channel/UC123''\<rparr>\<rparr>"

text \<open>An environment with an empty site and the three authors.\<close>

definition emptyEnv :: env where
  "emptyEnv = \<lparr>cwd = ''/site'',
     readdirSync = (\<lambda>dir. []),
     readFileSync = (\<lambda>path. []),
     isNotJunk = (\<lambda>name. name \<noteq> ''.DS_Store''),
     matterCollection = (\<lambda>fileContents.
       \<lparr>raw_collection_info.title = [], raw_collection_info.published = [],
        raw_collection_info.authors = [], coverImg = []\<rparr>),
     matterPost = (\<lambda>fileContents.
       \<lparr>title = [], published = [], authors = [], tags = [], attached = [], license = [],
        description = None, edited = None, collection = None, order = None,
        originalLink = None, noindex = None\<rparr>),
     newDate = (\<lambda>s. None),
     newURL = demoURL,
     dayjsFormat = (\<lambda>s. s),
     unicornsRaw = [linus, grace],
     licensesRaw = [],
     tagsMap = Map.empty,
     collectionMapping = []\<rparr>"

definition brokenEnv :: env where
  "brokenEnv = emptyEnv\<lparr>unicornsRaw := [linus, ada, grace]\<rparr>"

text \<open>A site with one collection in two languages, one mapped collection and three posts.\<close>

definition siteDirs :: "(string \<times> string list) list" where
  "siteDirs =
     [(''/site/content/collections'', [''my-series'', ''.DS_Store'']),
      (''/site/content/collections/my-series'', [''index.md'', ''index.fr.md'', ''cover.png'']),
      (''/site/content/blog'', [''first'', ''second'', ''third'']),
      (''/site/content/blog/first'', [''index.md'', ''index.fr.md'', ''notes.txt'']),
      (''/site/content/blog/second'', [''index.md'']),
      (''/site/content/blog/third'', [''index.md''])]"

definition siteFiles :: "(string \<times> string) list" where
  "siteFiles =
     [(''/site/content/collections/my-series/index.md'', ''series en''),
      (''/site/content/collections/my-series/index.fr.md'', ''series fr''),
      (''/site/content/blog/first/index.md'', ''first post ''),
      (''/site/content/blog/first/index.fr.md'', ''premier billet''),
      (''/site/content/blog/second/index.md'', '' second post''),
      (''/site/content/blog/third/index.md'', ''third'')]"

definition basePost :: raw_post_info where
  "basePost = \<lparr>title = ''Post'', published = ''2024-03-01'', authors = [''linus''],
     tags = [], attached = [], license = ''cc-by-4'', description = None, edited = None,
     collection = None, order = None, originalLink = None, noindex = None\<rparr>"

definition siteEnv :: env where
  "siteEnv = \<lparr>cwd = ''/site'',
     readdirSync = (\<lambda>dir. case map_of siteDirs dir of Some names \<Rightarrow> names | None \<Rightarrow> []),
     readFileSync = (\<lambda>path. case map_of siteFiles path of Some text \<Rightarrow> text | None \<Rightarrow> []),
     isNotJunk = (\<lambda>name. name \<noteq> ''.DS_Store''),
     matterCollection = (\<lambda>fileContents.
       \<lparr>raw_collection_info.title = fileContents,
        raw_collection_info.published = ''2024-03-01'',
        raw_collection_info.authors = [''linus''], coverImg = ''./cover.png''\<rparr>),
     matterPost = (\<lambda>fileContents.
       if fileContents = ''first post ''
       then basePost\<lparr>tags := [''valid-tag'', ''bogus-tag''], collection := Some ''my-series''\<rparr>
       else if fileContents = ''premier billet''
       then basePost\<lparr>tags := [''valid-tag''], collection := Some ''my-series''\<rparr>
       else if fileContents = '' second post''
       then basePost\<lparr>published := ''2024-05-01''\<rparr>
       else basePost\<lparr>collection := Some ''my-series''\<rparr>),
     newDate = (\<lambda>s. if s = ''2024-03-01'' then Some 1709251200000
                    else if s = ''2024-05-01'' then Some 1714521600000 else None),
     newURL = demoURL,
     dayjsFormat = (\<lambda>s. s),
     unicornsRaw = [linus, grace],
     licensesRaw = [\<lparr>licenseId = ''cc-by-4''\<rparr>],
     tagsMap = map_of [(''valid-tag'', \<lparr>explainerHtml = None, explainerType = None\<rparr>)],
     collectionMapping =
       [(''mapped'', \<lparr>raw_collection_info.title = ''Mapped'',
                      raw_collection_info.published = ''2024-05-01'',
                      raw_collection_info.authors = [''grace''], coverImg = ''/m.png''\<rparr>)]\<rparr>"

definition firstPost :: post_info where
  "firstPost = fst (postOfFile siteEnv [] [] [] ''first'' [Some ''en'', Some ''fr''] 0 ''index.md'')"

definition secondPost :: post_info where
  "secondPost = fst (postOfFile siteEnv [] [] [] ''second'' [Some ''en''] 0 ''index.md'')"

definition thirdPost :: post_info where
  "thirdPost = fst (postOfFile siteEnv [] [] [] ''third'' [Some ''en''] 0 ''index.md'')"

definition seriesEn :: collection where
  "seriesEn = hd (collectionsOfSlug siteEnv [] ''my-series'')"

definition seriesFr :: collection where
  "seriesFr = last (collectionsOfSlug siteEnv [] ''my-series'')"

definition mapped :: collection where
  "mapped = collectionOfMapping [] (hd (collectionMapping siteEnv))"


definition siteExports :: exports where
  "siteExports = projr (loadContent siteEnv)"

text \<open>
  A site of three posts, \<open>a\<close>, \<open>b\<close> and \<open>c\<close>, and three mapped collections of
  the same names, where \<open>b\<close> has a published string that is no date.
\<close>

definition typoEnv :: env where
  "typoEnv = emptyEnv\<lparr>
     readdirSync := (\<lambda>dir. if dir = ''/site/content/blog'' then [''a'', ''b'', ''c'']
                           else if prefix ''/site/content/blog/'' dir then [''index.md'']
                           else []),
     readFileSync := (\<lambda>path. path),
     matterPost := (\<lambda>fileContents.
       basePost\<lparr>published :=
         (if fileContents = ''/site/content/blog/a/index.md'' then ''2020-01-01''
          else if fileContents = ''/site/content/blog/b/index.md'' then ''not a date''
          else ''2021-01-01'')\<rparr>),
     newDate := (\<lambda>s. if s = ''2020-01-01'' then Some 1577836800000
                    else if s = ''2021-01-01'' then Some 1609459200000 else None),
     collectionMapping :=
       [(''a'', \<lparr>raw_collection_info.title = ''A'',
                 raw_collection_info.published = ''2020-01-01'',
                 raw_collection_info.authors = [], coverImg = ''/a.png''\<rparr>),
        (''b'', \<lparr>raw_collection_info.title = ''B'',
                 raw_collection_info.published = ''not a date'',
                 raw_collection_info.authors = [], coverImg = ''/b.png''\<rparr>),
        (''c'', \<lparr>raw_collection_info.title = ''C'',
                 raw_collection_info.published = ''2021-01-01'',
                 raw_collection_info.authors = [], coverImg = ''/c.png''\<rparr>)]\<rparr>"


section \<open>Properties of author enrichment\<close>

lemma matchPrefix_bare:
  "CHR ''/'' \<notin> set s \<Longrightarrow> CHR ''@'' \<notin> set s \<Longrightarrow> matchPrefix s = None"
  by (induction s) auto

lemma set_trim_subset: "set (trim s) \<subseteq> set s"
  by (auto simp: trim_def dest!: set_dropWhileD)

lemma normalizeString_bare:
  assumes "CHR ''/'' \<notin> set s" and "CHR ''@'' \<notin> set s"
  shows "normalizeString s = trim s"
proof -
  from assms set_trim_subset [of s]
  have "CHR ''/'' \<notin> set (trim s)" and "CHR ''@'' \<notin> set (trim s)" by auto
  then have "matchPrefix (trim s) = None" by (rule matchPrefix_bare)
  then show ?thesis by (simp add: normalizeString_def)
qed

lemma enrich_handles:
  assumes "enrichUnicorn U u = Inr u'"
  shows "twitter (socials u') = normalizeUsername (twitter (socials u))"
    and "github (socials u') = normalizeUsername (github (socials u))"
    and "gitlab (socials u') = normalizeUsername (gitlab (socials u))"
    and "linkedIn (socials u') = normalizeUsername (linkedIn (socials u))"
    and "twitch (socials u') = normalizeUsername (twitch (socials u))"
    and "dribbble (socials u') = normalizeUsername (dribbble (socials u))"
    and "threads (socials u') = normalizeUsername (threads (socials u))"
    and "cohost (socials u') = normalizeUsername (cohost (socials u))"
  using assms
  by (auto simp: enrichUnicorn_def mastodonStep_def youtubeStep_def normalizeHandles_def Let_def
      split: sum.splits option.splits if_splits)

lemma enrich_linus: "enrichUnicorn demoURL linus = Inr linusEnriched"
  by code_simp

text \<open>
  C3, counterexample: the claim has \<open>"github.com/torvalds/"\<close> normalize to
  \<open>"torvalds"\<close>. The last separator of that value is its last character, where
  the lookahead \<open>(?!$)\<close> refuses the match, so the match ends one separator
  earlier and the trailing \<open>/\<close> stays.
\<close>

theorem normalize_trailing_slash_counterexample:
  "normalizeUsername (Some ''github.com/torvalds/'') \<noteq> Some ''torvalds''"
  by code_simp

text \<open>
  C3, as amended: each of the eight handle fields of an enriched author is the
  normalization of the field as entered; a value without \<open>/\<close> and \<open>@\<close> and
  without whitespace around it is left as it is; \<open>"https://github.com/torvalds"\<close>
  and \<open>"@torvalds"\<close> become \<open>"torvalds"\<close>, while \<open>"github.com/torvalds/"\<close>
  becomes \<open>"torvalds/"\<close>; the empty string and an absent value are unchanged.
\<close>

theorem social_handle_normalization:
  "(enrichUnicorn U u = Inr u' \<longrightarrow>
      twitter (socials u') = normalizeUsername (twitter (socials u)) \<and>
      github (socials u') = normalizeUsername (github (socials u)) \<and>
      gitlab (socials u') = normalizeUsername (gitlab (socials u)) \<and>
      linkedIn (socials u') = normalizeUsername (linkedIn (socials u)) \<and>
      twitch (socials u') = normalizeUsername (twitch (socials u)) \<and>
      dribbble (socials u') = normalizeUsername (dribbble (socials u)) \<and>
      threads (socials u') = normalizeUsername (threads (socials u)) \<and>
      cohost (socials u') = normalizeUsername (cohost (socials u))) \<and>
   (CHR ''/'' \<notin> set s \<and> CHR ''@'' \<notin> set s \<and> trim s = s \<longrightarrow>
      normalizeUsername (Some s) = Some s) \<and>
   normalizeUsername (Some ''torvalds'') = Some ''torvalds'' \<and>
   normalizeUsername (Some ''https://github.com/torvalds'') = Some ''torvalds'' \<and>
   normalizeUsername (Some ''@torvalds'') = Some ''torvalds'' \<and>
   normalizeUsername (Some ''github.com/torvalds/'') = Some ''torvalds/'' \<and>
   normalizeUsername (Some []) = Some [] \<and>
   normalizeUsername None = None"
proof -
  have bare: "CHR ''/'' \<notin> set s \<and> CHR ''@'' \<notin> set s \<and> trim s = s \<longrightarrow>
      normalizeUsername (Some s) = Some s"
    by (simp add: normalizeUsername_def normalizeString_bare)
  have e1: "normalizeUsername (Some ''torvalds'') = Some ''torvalds''" by code_simp
  have e2: "normalizeUsername (Some ''https://github.com/torvalds'') = Some ''torvalds''"
    by code_simp
  have e3: "normalizeUsername (Some ''@torvalds'') = Some ''torvalds''" by code_simp
  have e4: "normalizeUsername (Some ''github.com/torvalds/'') = Some ''torvalds/''"
    by code_simp
  have e5: "normalizeUsername (Some []) = Some []" by code_simp
  have e6: "normalizeUsername None = None" by (simp add: normalizeUsername_def)
  from enrich_handles [of U u u'] bare e1 e2 e3 e4 e5 e6 show ?thesis by blast
qed

text \<open>C3, witness: the author \<open>linus\<close> and the bare handle \<open>"torvalds"\<close>.\<close>

theorem social_handle_normalization_witness:
  "enrichUnicorn demoURL linus = Inr linusEnriched \<and>
   twitter (socials linusEnriched) = normalizeUsername (twitter (socials linus)) \<and>
   gitlab (socials linusEnriched) = normalizeUsername (gitlab (socials linus)) \<and>
   cohost (socials linusEnriched) = normalizeUsername (cohost (socials linus)) \<and>
   CHR ''/'' \<notin> set ''torvalds'' \<and> CHR ''@'' \<notin> set ''torvalds'' \<and>
   trim ''torvalds'' = ''torvalds'' \<and>
   normalizeUsername (Some ''torvalds'') = Some ''torvalds''"
proof -
  have h: "enrichUnicorn demoURL linus = Inr linusEnriched"
    by (rule enrich_linus)
  have b: "CHR ''/'' \<notin> set ''torvalds'' \<and> CHR ''@'' \<notin> set ''torvalds''" by simp
  have t: "trim ''torvalds'' = ''torvalds''" by code_simp
  from social_handle_normalization [of demoURL linus linusEnriched "''torvalds''"] h b t
  show ?thesis by blast
qed

lemma enrich_youtube:
  assumes "enrichUnicorn U u = Inr u'" and "youtube (socials u) = Some y" and "y \<noteq> []"
  shows "youtube (socials u') =
           Some (if CHR ''@'' \<in> set y then ''https://www.youtube.com/@'' @ normalizeString y
                 else ''https://www.youtube.com/channel/'' @ normalizeString y)"
  using assms
  by (auto simp: enrichUnicorn_def mastodonStep_def youtubeStep_def normalizeHandles_def Let_def
      split: sum.splits option.splits if_splits)

lemma enrich_grace: "enrichUnicorn demoURL grace = Inr graceEnriched"
  by code_simp

text \<open>
  C4: an author whose youtube value is present (the code's test: neither absent
  nor empty) gets \<open>https://www.youtube.com/@h\<close> when the value contains \<open>@\<close> and
  \<open>https://www.youtube.com/channel/h\<close> when it does not, \<open>h\<close> being the
  normalization of the value; \<open>"@somechannel"\<close> has the handle \<open>"somechannel"\<close>
  and \<open>"channel/UC123"\<close> the id \<open>"UC123"\<close>; no string has both forms.
\<close>

theorem youtube_canonicalization:
  assumes "enrichUnicorn U u = Inr u'" and "youtube (socials u) = Some y" and "y \<noteq> []"
  shows "(CHR ''@'' \<in> set y \<longrightarrow>
            youtube (socials u') = Some (''https://www.youtube.com/@'' @ normalizeString y)) \<and>
         (CHR ''@'' \<notin> set y \<longrightarrow>
            youtube (socials u') =
              Some (''https://www.youtube.com/channel/'' @ normalizeString y)) \<and>
         normalizeString ''@somechannel'' = ''somechannel'' \<and>
         normalizeString ''channel/UC123'' = ''UC123'' \<and>
         ''https://www.youtube.com/@'' @ h \<noteq> ''https://www.youtube.com/channel/'' @ h'"
proof -
  have n1: "normalizeString ''@somechannel'' = ''somechannel''" by code_simp
  have n2: "normalizeString ''channel/UC123'' = ''UC123''" by code_simp
  have ne: "''https://www.youtube.com/@'' @ h \<noteq> ''https://www.youtube.com/channel/'' @ h'"
    by simp
  from enrich_youtube [OF assms] n1 n2 ne show ?thesis by simp
qed

text \<open>
  C4, witness: \<open>linus\<close> entered \<open>"@somechannel"\<close>, \<open>grace\<close> entered
  \<open>"channel/UC123"\<close>.
\<close>

theorem youtube_canonicalization_witness:
  "enrichUnicorn demoURL linus = Inr linusEnriched \<and>
   youtube (socials linus) = Some ''@somechannel'' \<and>
   youtube (socials linusEnriched) = Some ''https://www.youtube.com/@somechannel'' \<and>
   enrichUnicorn demoURL grace = Inr graceEnriched \<and>
   youtube (socials grace) = Some ''channel/UC123'' \<and>
   youtube (socials graceEnriched) = Some ''https://www.youtube.com/channel/UC123''"
proof -
  have l1: "enrichUnicorn demoURL linus = Inr linusEnriched" by code_simp
  have l2: "youtube (socials linus) = Some ''@somechannel''"
    by (simp add: linus_def noSocials_def)
  have l3: "''@somechannel'' \<noteq> []" by simp
  have g1: "enrichUnicorn demoURL grace = Inr graceEnriched" by code_simp
  have g2: "youtube (socials grace) = Some ''channel/UC123''"
    by (simp add: grace_def noSocials_def)
  have g3: "''channel/UC123'' \<noteq> []" by simp
  from youtube_canonicalization [OF l1 l2 l3] youtube_canonicalization [OF g1 g2 g3] l1 l2 g1 g2
  show ?thesis by simp
qed

lemma isl_mapThrowing: "isl (mapThrowing f xs) \<longleftrightarrow> (\<exists>x \<in> set xs. isl (f x))"
  by (induction xs) (auto split: sum.splits)

lemma isl_loadContent: "isl (loadContent e) \<longleftrightarrow> isl (fullUnicorns (newURL e) (unicornsRaw e))"
  by (simp add: loadContent_def Let_def split: sum.splits prod.splits)

lemma mastodon_normalizeHandles: "mastodon (normalizeHandles s) = mastodon s"
  by (simp add: normalizeHandles_def)

lemma enrich_rejected:
  assumes "mastodon (socials u) = Some m" and "m \<noteq> []" and "U m = None"
  shows "enrichUnicorn U u = Inl (InvalidMastodonURL (unicornId u) m)"
  using assms by (simp add: enrichUnicorn_def mastodonStep_def mastodon_normalizeHandles)

lemma enrich_accepted:
  assumes "mastodon (socials u) = Some m" and "m \<noteq> []" and "U m = Some v"
  shows "\<exists>u'. enrichUnicorn U u = Inr u' \<and> mastodon (socials u') = Some v"
  using assms
  by (simp add: enrichUnicorn_def mastodonStep_def mastodon_normalizeHandles youtubeStep_def
      Let_def split: option.splits)

lemma enrich_absent:
  assumes "mastodon (socials u) = None \<or> mastodon (socials u) = Some []"
  shows "\<exists>u'. enrichUnicorn U u = Inr u' \<and> mastodon (socials u') = mastodon (socials u)"
  using assms
  by (auto simp: enrichUnicorn_def mastodonStep_def mastodon_normalizeHandles youtubeStep_def
      Let_def split: option.splits)

lemma isl_enrich:
  "isl (enrichUnicorn U u) \<longleftrightarrow> (\<exists>m. mastodon (socials u) = Some m \<and> m \<noteq> [] \<and> U m = None)"
  by (auto simp: enrichUnicorn_def mastodonStep_def mastodon_normalizeHandles
      split: option.splits sum.splits)

text \<open>
  C5: an author's non-empty mastodon value that \<open>new URL\<close> rejects makes the
  enrichment of that author throw, and with it the whole module; a value that
  \<open>new URL\<close> accepts is stored as \<open>new URL(value).toString()\<close>; an absent (or
  empty) value is left as it is and the enrichment of that author returns. The
  module fails in no other case.
\<close>

theorem mastodon_validation:
  "(u \<in> set (unicornsRaw e) \<and> mastodon (socials u) = Some m \<and> m \<noteq> [] \<and> newURL e m = None \<longrightarrow>
      enrichUnicorn (newURL e) u = Inl (InvalidMastodonURL (unicornId u) m) \<and>
      isl (fullUnicorns (newURL e) (unicornsRaw e)) \<and> isl (loadContent e)) \<and>
   (mastodon (socials u) = Some m \<and> m \<noteq> [] \<and> newURL e m = Some v \<longrightarrow>
      (\<exists>u'. enrichUnicorn (newURL e) u = Inr u' \<and> mastodon (socials u') = Some v)) \<and>
   (mastodon (socials u) = None \<or> mastodon (socials u) = Some [] \<longrightarrow>
      (\<exists>u'. enrichUnicorn (newURL e) u = Inr u' \<and>
            mastodon (socials u') = mastodon (socials u))) \<and>
   (isl (loadContent e) \<longleftrightarrow>
      (\<exists>a \<in> set (unicornsRaw e). \<exists>v. mastodon (socials a) = Some v \<and> v \<noteq> [] \<and>
          newURL e v = None))"
proof -
  have whole: "isl (loadContent e) \<longleftrightarrow>
      (\<exists>a \<in> set (unicornsRaw e). \<exists>v. mastodon (socials a) = Some v \<and> v \<noteq> [] \<and>
          newURL e v = None)"
    by (simp add: isl_loadContent fullUnicorns_def isl_mapThrowing isl_enrich)
  have full: "isl (loadContent e) \<longleftrightarrow> isl (fullUnicorns (newURL e) (unicornsRaw e))"
    by (rule isl_loadContent)
  show ?thesis
    using whole full enrich_rejected [of u m "newURL e"] enrich_accepted [of u m "newURL e" v]
      enrich_absent [of u "newURL e"]
    by blast
qed

text \<open>
  C5, witness: \<open>ada\<close> entered \<open>"not a url"\<close>, and the module with her among the
  authors fails; \<open>linus\<close> entered a URL, which is stored as \<open>new URL\<close> prints
  it; \<open>grace\<close> entered nothing, and the module with only these two returns.
\<close>

theorem mastodon_validation_witness:
  "ada \<in> set (unicornsRaw brokenEnv) \<and> mastodon (socials ada) = Some ''not a url'' \<and>
   newURL brokenEnv ''not a url'' = None \<and>
   enrichUnicorn (newURL brokenEnv) ada = Inl (InvalidMastodonURL ''ada'' ''not a url'') \<and>
   isl (loadContent brokenEnv) \<and>
   mastodon (socials linus) = Some ''HTTPS://Fosstodon.org/@linus'' \<and>
   newURL emptyEnv ''HTTPS://Fosstodon.org/@linus'' = Some ''https://fosstodon.org/@linus'' \<and>
   (\<exists>u'. enrichUnicorn (newURL emptyEnv) linus = Inr u' \<and>
         mastodon (socials u') = Some ''https://fosstodon.org/@linus'') \<and>
   mastodon (socials grace) = None \<and>
   (\<exists>u'. enrichUnicorn (newURL emptyEnv) grace = Inr u' \<and> mastodon (socials u') = None) \<and>
   \<not> isl (loadContent emptyEnv)"
proof -
  have a1: "ada \<in> set (unicornsRaw brokenEnv)"
    by (simp add: brokenEnv_def)
  have a2: "mastodon (socials ada) = Some ''not a url''"
    by (simp add: ada_def noSocials_def)
  have a3: "newURL brokenEnv ''not a url'' = None"
    by (simp add: brokenEnv_def emptyEnv_def demoURL_def)
  have a4: "unicornId ada = ''ada''"
    by (simp add: ada_def)
  have l1: "mastodon (socials linus) = Some ''HTTPS://Fosstodon.org/@linus''"
    by (simp add: linus_def noSocials_def)
  have l2: "newURL emptyEnv ''HTTPS://Fosstodon.org/@linus'' = Some ''https://fosstodon.org/@linus''"
    by (simp add: emptyEnv_def demoURL_def)
  have g1: "mastodon (socials grace) = None"
    by (simp add: grace_def noSocials_def)
  have ok: "\<not> (\<exists>a \<in> set (unicornsRaw emptyEnv). \<exists>v. mastodon (socials a) = Some v \<and> v \<noteq> [] \<and>
          newURL emptyEnv v = None)"
    by (simp add: emptyEnv_def linus_def grace_def noSocials_def demoURL_def)
  from mastodon_validation [of ada brokenEnv "''not a url''"] a1 a2 a3 a4
  have r1: "enrichUnicorn (newURL brokenEnv) ada = Inl (InvalidMastodonURL ''ada'' ''not a url'')"
    and r2: "isl (loadContent brokenEnv)"
    by simp_all
  from mastodon_validation [of linus emptyEnv "''HTTPS://Fosstodon.org/@linus''"
      "''https://fosstodon.org/@linus''"] l1 l2
  have r3: "\<exists>u'. enrichUnicorn (newURL emptyEnv) linus = Inr u' \<and>
         mastodon (socials u') = Some ''https://fosstodon.org/@linus''"
    by simp
  from mastodon_validation [of grace emptyEnv] g1 ok
  have r4: "\<exists>u'. enrichUnicorn (newURL emptyEnv) grace = Inr u' \<and> mastodon (socials u') = None"
    and r5: "\<not> isl (loadContent emptyEnv)"
    by simp_all
  from a1 a2 a3 l1 l2 g1 r1 r2 r3 r4 r5 show ?thesis by blast
qed

section \<open>Properties of the index files\<close>

lemma localesOf_map: "localesOf files = map localeOfName files"
  by (simp add: localesOf_def localeOfName_def Let_def)

lemma splitOn_no_separator: "d \<notin> set s \<Longrightarrow> splitOn d cur s = [cur @ s]"
  by (induction s arbitrary: cur) auto

lemma splitOn_at_separator:
  "d \<notin> set s \<Longrightarrow> splitOn d cur (s @ d # rest) = (cur @ s) # splitOn d [] rest"
  by (induction s arbitrary: cur) auto

lemma localeOfName_index_md: "localeOfName ''index.md'' = Some ''en''"
  by code_simp

lemma localeOfName_index_locale_md:
  assumes "CHR ''.'' \<notin> set l" and "l \<noteq> ''index''"
  shows "localeOfName (''index.'' @ l @ ''.md'') = Some l"
proof -
  have "splitOn (CHR ''.'') [] (''index'' @ CHR ''.'' # (l @ CHR ''.'' # ''md''))
          = ''index'' # splitOn (CHR ''.'') [] (l @ CHR ''.'' # ''md'')"
    by (subst splitOn_at_separator) simp_all
  also have "splitOn (CHR ''.'') [] (l @ CHR ''.'' # ''md'') = l # splitOn (CHR ''.'') [] ''md''"
    using assms(1) by (subst splitOn_at_separator) simp_all
  also have "splitOn (CHR ''.'') [] ''md'' = [''md'']"
    by (subst splitOn_no_separator) simp_all
  finally have "splitOn (CHR ''.'') [] (''index.'' @ l @ ''.md'') = [''index'', l, ''md'']"
    by simp
  then show ?thesis
    using assms(2) by (simp add: localeOfName_def at_def Let_def)
qed

lemma length_splitOn: "length (splitOn d cur s) = Suc (count_list s d)"
  by (induction s arbitrary: cur) auto

lemma localeOfName_defined:
  assumes "prefix ''index.'' name"
  shows "localeOfName name \<noteq> None"
proof -
  from assms obtain rest where "name = ''index.'' @ rest"
    by (auto simp: prefix_def)
  then have "0 < count_list name (CHR ''.'')" by simp
  then have "2 \<le> length (splitOn (CHR ''.'') [] name)"
    by (simp add: length_splitOn)
  then show ?thesis
    by (auto simp: localeOfName_def at_def Let_def)
qed

lemma map_enumerate_elementAt:
  "map (\<lambda>(i, x). F (elementAt (map g xs) i) x) (enumerate 0 xs) = map (\<lambda>x. F (g x) x) xs"
  by (rule nth_equalityI) (simp_all add: nth_enumerate_eq elementAt_def)

lemma collectionsOfSlug_map:
  "collectionsOfSlug e us sl =
     map (\<lambda>file.
            let frontmatter = matterCollection e (readFileSync e (join [collectionsDirectory e, sl, file]))
            in raw_collection_info.extend frontmatter
                 (collection_info.fields sl
                    (localesOf (indexFiles e (join [collectionsDirectory e, sl])))
                    (localeOfName file)
                    (map (\<lambda>authorId. find (\<lambda>u. unicornId u = authorId) us)
                       (raw_collection_info.authors frontmatter))
                    None))
       (indexFiles e (join [collectionsDirectory e, sl]))"
  unfolding collectionsOfSlug_def Let_def localesOf_map
  by (rule map_enumerate_elementAt
      [where F = "\<lambda>l file. raw_collection_info.extend
                    (matterCollection e (readFileSync e (join [collectionsDirectory e, sl, file])))
                    (collection_info.fields sl (map localeOfName (indexFiles e (join [collectionsDirectory e, sl]))) l
                      (map (\<lambda>authorId. find (\<lambda>u. unicornId u = authorId) us)
                         (raw_collection_info.authors (matterCollection e (readFileSync e (join [collectionsDirectory e, sl, file])))))
                      None)"])

lemma collectionsOfSlug_fields:
  "map collection_info.locale' (collectionsOfSlug e us sl) =
     map localeOfName (indexFiles e (join [collectionsDirectory e, sl]))"
  "map raw_collection_info.truncate (collectionsOfSlug e us sl) =
     map (\<lambda>file. matterCollection e (readFileSync e (join [collectionsDirectory e, sl, file])))
       (indexFiles e (join [collectionsDirectory e, sl]))"
  "map collection_info.locales (collectionsOfSlug e us sl) =
     map (\<lambda>file. localesOf (indexFiles e (join [collectionsDirectory e, sl])))
       (indexFiles e (join [collectionsDirectory e, sl]))"
  by (simp_all add: collectionsOfSlug_map Let_def raw_collection_info.defs collection_info.defs
      comp_def)

lemma postOfFile_fields:
  "locale' (fst (postOfFile e us hp colls sl ls i file)) = elementAt ls i"
  "locales (fst (postOfFile e us hp colls sl ls i file)) = ls"
  "slug (fst (postOfFile e us hp colls sl ls i file)) = sl"
  "bannerImg (fst (postOfFile e us hp colls sl ls i file)) = None"
  "wordCount (fst (postOfFile e us hp colls sl ls i file)) =
     wordCountOf (readFileSync e (join [postsDirectory e, sl, file]))"
  "title (fst (postOfFile e us hp colls sl ls i file)) =
     title (matterPost e (readFileSync e (join [postsDirectory e, sl, file])))"
  "published (fst (postOfFile e us hp colls sl ls i file)) =
     published (matterPost e (readFileSync e (join [postsDirectory e, sl, file])))"
  "collection (fst (postOfFile e us hp colls sl ls i file)) =
     collection (matterPost e (readFileSync e (join [postsDirectory e, sl, file])))"
  "tags (fst (postOfFile e us hp colls sl ls i file)) =
     fst (filterTags (tagsMap e) sl
            (tags (matterPost e (readFileSync e (join [postsDirectory e, sl, file])))))"
  "snd (postOfFile e us hp colls sl ls i file) =
     snd (filterTags (tagsMap e) sl
            (tags (matterPost e (readFileSync e (join [postsDirectory e, sl, file])))))"
  by (simp_all add: postOfFile_def Let_def raw_post_info.defs post_info.defs split: prod.splits)

lemma postsOfSlug_map:
  "postsOfSlug e us hp colls sl =
     map (\<lambda>(i, file). postOfFile e us hp colls sl
                         (map localeOfName (indexFiles e (join [postsDirectory e, sl]))) i file)
       (enumerate 0 (indexFiles e (join [postsDirectory e, sl])))"
  by (simp add: postsOfSlug_def Let_def localesOf_map)

lemma postsOfSlug_fields:
  "map (\<lambda>pw. locale' (fst pw)) (postsOfSlug e us hp colls sl) =
     map localeOfName (indexFiles e (join [postsDirectory e, sl]))"
  "map (\<lambda>pw. (title (fst pw), published (fst pw), wordCount (fst pw)))
       (postsOfSlug e us hp colls sl) =
     map (\<lambda>file. let fileContents = readFileSync e (join [postsDirectory e, sl, file])
                  in (title (matterPost e fileContents), published (matterPost e fileContents),
                      wordCountOf fileContents))
       (indexFiles e (join [postsDirectory e, sl]))"
  "map (\<lambda>pw. locales (fst pw)) (postsOfSlug e us hp colls sl) =
     map (\<lambda>file. localesOf (indexFiles e (join [postsDirectory e, sl])))
       (indexFiles e (join [postsDirectory e, sl]))"
  by (rule nth_equalityI;
      simp add: postsOfSlug_map postOfFile_fields nth_enumerate_eq elementAt_def Let_def
        localesOf_map)+

text \<open>
  C7: in a collection directory and in a post directory alike, the locale list
  has the length of the list of index files and is made from it name by name;
  the record at position \<open>i\<close> carries the locale of the name at position \<open>i\<close>
  and the frontmatter (for a post also the word count) of the file of that
  name, and every record carries the whole locale list. \<open>index.md\<close> has the
  locale \<open>en\<close>, and \<open>index.l.md\<close> has the locale \<open>l\<close>, for a locale \<open>l\<close> without a
  dot other than the word \<open>index\<close>. No index file is left without a locale.
\<close>

theorem locale_file_correspondence:
  fixes e :: env and us :: "unicorn_info list" and sl :: string
  defines "cfiles \<equiv> indexFiles e (join [collectionsDirectory e, sl])"
    and "pfiles \<equiv> indexFiles e (join [postsDirectory e, sl])"
  shows "length (localesOf cfiles) = length cfiles \<and>
         localesOf cfiles = map localeOfName cfiles \<and>
         length (collectionsOfSlug e us sl) = length cfiles \<and>
         map collection_info.locale' (collectionsOfSlug e us sl) = map localeOfName cfiles \<and>
         map collection_info.locales (collectionsOfSlug e us sl) =
           map (\<lambda>file. localesOf cfiles) cfiles \<and>
         map raw_collection_info.truncate (collectionsOfSlug e us sl) =
           map (\<lambda>file. matterCollection e
                          (readFileSync e (join [collectionsDirectory e, sl, file]))) cfiles \<and>
         length (localesOf pfiles) = length pfiles \<and>
         localesOf pfiles = map localeOfName pfiles \<and>
         length (postsOfSlug e us hp colls sl) = length pfiles \<and>
         map (\<lambda>pw. locale' (fst pw)) (postsOfSlug e us hp colls sl) = map localeOfName pfiles \<and>
         map (\<lambda>pw. locales (fst pw)) (postsOfSlug e us hp colls sl) =
           map (\<lambda>file. localesOf pfiles) pfiles \<and>
         map (\<lambda>pw. (title (fst pw), published (fst pw), wordCount (fst pw)))
             (postsOfSlug e us hp colls sl) =
           map (\<lambda>file. let fileContents = readFileSync e (join [postsDirectory e, sl, file])
                        in (title (matterPost e fileContents),
                            published (matterPost e fileContents), wordCountOf fileContents))
             pfiles \<and>
         (\<forall>name \<in> set cfiles \<union> set pfiles. localeOfName name \<noteq> None) \<and>
         localeOfName ''index.md'' = Some ''en'' \<and>
         (CHR ''.'' \<notin> set l \<and> l \<noteq> ''index'' \<longrightarrow> localeOfName (''index.'' @ l @ ''.md'') = Some l)"
proof -
  have c0: "length (collectionsOfSlug e us sl) = length cfiles"
    by (simp add: collectionsOfSlug_map cfiles_def)
  have p0: "length (postsOfSlug e us hp colls sl) = length pfiles"
    by (simp add: postsOfSlug_map pfiles_def)
  have defined: "\<forall>name \<in> set cfiles \<union> set pfiles. localeOfName name \<noteq> None"
    using localeOfName_defined by (fastforce simp: cfiles_def pfiles_def indexFiles_def)
  have named: "CHR ''.'' \<notin> set l \<and> l \<noteq> ''index'' \<longrightarrow>
      localeOfName (''index.'' @ l @ ''.md'') = Some l"
    using localeOfName_index_locale_md by blast
  have lens: "length (localesOf cfiles) = length cfiles" "length (localesOf pfiles) = length pfiles"
    by (simp_all add: localesOf_map)
  show ?thesis
    using c0 p0 defined named localeOfName_index_md lens
      localesOf_map [of cfiles] localesOf_map [of pfiles]
      collectionsOfSlug_fields [of e us sl, folded cfiles_def]
      postsOfSlug_fields [of e us hp colls sl, folded pfiles_def]
    by blast
qed

lemma site_post_files:
  "indexFiles siteEnv (join [postsDirectory siteEnv, ''first'']) = [''index.md'', ''index.fr.md'']"
  by code_simp

lemma site_collection_files:
  "indexFiles siteEnv (join [collectionsDirectory siteEnv, ''my-series'']) =
     [''index.md'', ''index.fr.md'']"
  by code_simp

text \<open>
  C7, witness: the directories \<open>my-series\<close> and \<open>first\<close> of the small site, each
  with \<open>index.md\<close>, \<open>index.fr.md\<close> and a file that is not an index file.
\<close>

theorem locale_file_correspondence_witness:
  "indexFiles siteEnv (join [collectionsDirectory siteEnv, ''my-series'']) =
     [''index.md'', ''index.fr.md''] \<and>
   map collection_info.locale' (collectionsOfSlug siteEnv [] ''my-series'') =
     [Some ''en'', Some ''fr''] \<and>
   map raw_collection_info.truncate (collectionsOfSlug siteEnv [] ''my-series'') =
     [matterCollection siteEnv ''series en'', matterCollection siteEnv ''series fr''] \<and>
   indexFiles siteEnv (join [postsDirectory siteEnv, ''first'']) = [''index.md'', ''index.fr.md''] \<and>
   map (\<lambda>pw. locale' (fst pw)) (postsOfSlug siteEnv [] [] [] ''first'') =
     [Some ''en'', Some ''fr''] \<and>
   map (\<lambda>pw. locales (fst pw)) (postsOfSlug siteEnv [] [] [] ''first'') =
     [[Some ''en'', Some ''fr''], [Some ''en'', Some ''fr'']] \<and>
   map (\<lambda>pw. (title (fst pw), published (fst pw), wordCount (fst pw)))
     (postsOfSlug siteEnv [] [] [] ''first'') =
     [(''Post'', ''2024-03-01'', 3), (''Post'', ''2024-03-01'', 2)] \<and>
   ''index.fr.md'' \<in> set (indexFiles siteEnv (join [postsDirectory siteEnv, ''first''])) \<and>
   CHR ''.'' \<notin> set ''fr'' \<and> ''fr'' \<noteq> ''index'' \<and>
   localeOfName (''index.'' @ ''fr'' @ ''.md'') = Some ''fr''"
proof -
  note series = locale_file_correspondence [of siteEnv "''my-series''" "[]" "[]" "[]" "''fr''"]
  note first = locale_file_correspondence [of siteEnv "''first''" "[]" "[]" "[]" "''fr''"]
  have fr: "localeOfName ''index.fr.md'' = Some ''fr''" by code_simp
  have r1: "readFileSync siteEnv (join [collectionsDirectory siteEnv, ''my-series'', ''index.md''])
              = ''series en''"
    by code_simp
  have r2: "readFileSync siteEnv (join [collectionsDirectory siteEnv, ''my-series'', ''index.fr.md''])
              = ''series fr''"
    by code_simp
  have r3: "readFileSync siteEnv (join [postsDirectory siteEnv, ''first'', ''index.md''])
              = ''first post ''"
    by code_simp
  have r4: "readFileSync siteEnv (join [postsDirectory siteEnv, ''first'', ''index.fr.md''])
              = ''premier billet''"
    by code_simp
  have m: "title (matterPost siteEnv ''first post '') = ''Post''"
    "published (matterPost siteEnv ''first post '') = ''2024-03-01''"
    "title (matterPost siteEnv ''premier billet'') = ''Post''"
    "published (matterPost siteEnv ''premier billet'') = ''2024-03-01''"
    by (simp_all add: siteEnv_def basePost_def)
  have w: "wordCountOf ''first post '' = 3" "wordCountOf ''premier billet'' = 2"
    by code_simp+
  have l: "localesOf [''index.md'', ''index.fr.md''] = [Some ''en'', Some ''fr'']"
    by code_simp
  from series site_collection_files localeOfName_index_md fr r1 r2 l
  have c: "map collection_info.locale' (collectionsOfSlug siteEnv [] ''my-series'') =
             [Some ''en'', Some ''fr''] \<and>
           map raw_collection_info.truncate (collectionsOfSlug siteEnv [] ''my-series'') =
             [matterCollection siteEnv ''series en'', matterCollection siteEnv ''series fr'']"
    by (simp del: join.simps)
  from first site_post_files localeOfName_index_md fr r3 r4 m w l
  have p: "map (\<lambda>pw. locale' (fst pw)) (postsOfSlug siteEnv [] [] [] ''first'') =
             [Some ''en'', Some ''fr''] \<and>
           map (\<lambda>pw. locales (fst pw)) (postsOfSlug siteEnv [] [] [] ''first'') =
             [[Some ''en'', Some ''fr''], [Some ''en'', Some ''fr'']] \<and>
           map (\<lambda>pw. (title (fst pw), published (fst pw), wordCount (fst pw)))
             (postsOfSlug siteEnv [] [] [] ''first'') =
             [(''Post'', ''2024-03-01'', 3), (''Post'', ''2024-03-01'', 2)] \<and>
           localeOfName (''index.'' @ ''fr'' @ ''.md'') = Some ''fr''"
    by (simp del: join.simps)
  from c p site_collection_files site_post_files show ?thesis by simp
qed

section \<open>Properties of the sort\<close>

lemma mset_binaryInsertionSort:
  "mset (binaryInsertionSort cmp placed rest) = mset placed + mset rest"
proof (induction rest arbitrary: placed)
  case Nil
  then show ?case by simp
next
  case (Cons pivot rest)
  have "mset (take l placed) + mset (drop l placed) = mset placed" for l
    by (simp only: mset_append [symmetric] append_take_drop_id)
  then have "mset (take l placed @ pivot # drop l placed) = add_mset pivot (mset placed)" for l
    by simp
  with Cons.IH show ?case by (simp add: Let_def)
qed

lemma mset_countAndMakeRun: "mset (snd (countAndMakeRun cmp xs)) = mset xs"
proof -
  have "mset (take n xs) + mset (drop n xs) = mset xs" for n
    by (simp only: mset_append [symmetric] append_take_drop_id)
  then have r: "mset (if d then rev (take n xs) @ drop n xs else xs) = mset xs" for n d
    by simp
  show ?thesis
  proof (cases xs)
    case Nil
    then show ?thesis by (simp add: countAndMakeRun_def)
  next
    case (Cons x ys)
    show ?thesis
    proof (cases ys)
      case Nil
      with Cons show ?thesis by (simp add: countAndMakeRun_def)
    next
      case (Cons y zs)
      then have xs: "xs = x # y # zs" using \<open>xs = x # ys\<close> by simp
      have "snd (countAndMakeRun cmp xs) =
          (if cmp y x < 0 then rev (take (2 + countRun cmp (cmp y x < 0) y zs) xs)
                                 @ drop (2 + countRun cmp (cmp y x < 0) y zs) xs
           else xs)"
        unfolding countAndMakeRun_def by (subst xs) (simp only: list.case Let_def snd_conv)
      then show ?thesis by (simp only: r)
    qed
  qed
qed

lemma mset_sortArray: "mset (sortArray cmp xs) = mset xs"
proof -
  obtain n ys where c: "countAndMakeRun cmp xs = (n, ys)" by (cases "countAndMakeRun cmp xs")
  then have "mset ys = mset xs" using mset_countAndMakeRun [of cmp xs] by simp
  moreover have "mset (take n ys) + mset (drop n ys) = mset ys"
    by (simp only: mset_append [symmetric] append_take_drop_id)
  ultimately show ?thesis
    by (simp add: sortArray_def c mset_binaryInsertionSort)
qed

lemma set_sortArray: "set (sortArray cmp xs) = set xs"
  using mset_sortArray [of cmp xs] by (rule mset_eq_setD)

lemma length_sortArray: "length (sortArray cmp xs) = length xs"
  using mset_sortArray [of cmp xs] by (rule mset_eq_length)

lemma countRun_le: "countRun cmp d previous rest \<le> length rest"
  by (induction rest arbitrary: previous) (auto simp: Let_def)

lemma countRun_ascending:
  fixes key :: "'a \<Rightarrow> int"
  assumes "\<forall>x \<in> S. \<forall>y \<in> S. (cmp x y < 0) = (key y < key x)"
    and "previous \<in> S" and "set rest \<subseteq> S"
  shows "sorted_wrt (\<lambda>a b. key b \<le> key a)
           (previous # take (countRun cmp False previous rest) rest)"
  using assms(2,3)
proof (induction rest arbitrary: previous)
  case Nil
  then show ?case by simp
next
  case (Cons current rest)
  from Cons.prems have in_S: "current \<in> S" "set rest \<subseteq> S" by simp_all
  show ?case
  proof (cases "cmp current previous < 0")
    case True
    then show ?thesis by (simp add: Let_def)
  next
    case False
    with assms(1) in_S(1) Cons.prems(1) have le: "key current \<le> key previous"
      by (simp add: not_less)
    have ih: "sorted_wrt (\<lambda>a b. key b \<le> key a)
            (current # take (countRun cmp False current rest) rest)"
      using in_S by (rule Cons.IH)
    then have "\<forall>z \<in> set (take (countRun cmp False current rest) rest). key z \<le> key previous"
      using le by fastforce
    with le ih False show ?thesis by (simp add: Let_def)
  qed
qed

lemma countRun_descending:
  fixes key :: "'a \<Rightarrow> int"
  assumes "\<forall>x \<in> S. \<forall>y \<in> S. (cmp x y < 0) = (key y < key x)"
    and "previous \<in> S" and "set rest \<subseteq> S"
  shows "sorted_wrt (\<lambda>a b. key a < key b)
           (previous # take (countRun cmp True previous rest) rest)"
  using assms(2,3)
proof (induction rest arbitrary: previous)
  case Nil
  then show ?case by simp
next
  case (Cons current rest)
  from Cons.prems have in_S: "current \<in> S" "set rest \<subseteq> S" by simp_all
  show ?case
  proof (cases "cmp current previous < 0")
    case False
    then show ?thesis by (simp add: Let_def)
  next
    case True
    with assms(1) in_S(1) Cons.prems(1) have less: "key previous < key current"
      by simp
    have ih: "sorted_wrt (\<lambda>a b. key a < key b)
            (current # take (countRun cmp True current rest) rest)"
      using in_S by (rule Cons.IH)
    then have "\<forall>z \<in> set (take (countRun cmp True current rest) rest). key previous < key z"
      using less by fastforce
    with less ih True show ?thesis by (simp add: Let_def)
  qed
qed

lemma filter_strict_run:
  fixes key :: "'a \<Rightarrow> int"
  assumes "sorted_wrt (\<lambda>a b. key a < key b) zs"
  shows "rev (filter (\<lambda>z. key z = v) zs) = filter (\<lambda>z. key z = v) zs"
  using assms
proof (induction zs)
  case Nil
  then show ?case by simp
next
  case (Cons z zs)
  show ?case
  proof (cases "key z = v")
    case True
    with Cons.prems have "filter (\<lambda>z. key z = v) zs = []"
      by (auto simp: filter_empty_conv)
    with True show ?thesis by simp
  next
    case False
    with Cons show ?thesis by simp
  qed
qed

text \<open>What the run detection leaves: a sorted first run, made of the same elements.\<close>

lemma countAndMakeRun_sorted:
  fixes key :: "'a \<Rightarrow> int"
  assumes "\<forall>x \<in> set xs. \<forall>y \<in> set xs. (cmp x y < 0) = (key y < key x)"
    and "countAndMakeRun cmp xs = (n, ys)"
  shows "sorted_wrt (\<lambda>a b. key b \<le> key a) (take n ys) \<and>
         filter (\<lambda>z. key z = v) (take n ys) = filter (\<lambda>z. key z = v) (take n xs) \<and>
         drop n ys = drop n xs"
proof (cases xs)
  case Nil
  with assms(2) show ?thesis by (simp add: countAndMakeRun_def)
next
  case (Cons x rest)
  note xs = Cons
  show ?thesis
  proof (cases rest)
    case Nil
    with xs assms(2) show ?thesis by (auto simp: countAndMakeRun_def)
  next
    case (Cons y zs)
    with xs have xyz: "xs = x # y # zs" by simp
    let ?d = "cmp y x < 0"
    let ?k = "countRun cmp ?d y zs"
    have unfolded: "countAndMakeRun cmp xs =
        (2 + ?k, if ?d then rev (take (2 + ?k) xs) @ drop (2 + ?k) xs else xs)"
      unfolding countAndMakeRun_def by (subst xyz) (simp only: list.case Let_def)
    have "n = fst (countAndMakeRun cmp xs)" and "ys = snd (countAndMakeRun cmp xs)"
      by (simp_all only: assms(2) fst_conv snd_conv)
    then have n: "n = 2 + ?k"
      and "ys = (if ?d then rev (take (2 + ?k) xs) @ drop (2 + ?k) xs else xs)"
      by (simp_all only: unfolded fst_conv snd_conv)
    then have ys: "ys = (if ?d then rev (take n xs) @ drop n xs else xs)"
      by (simp only:)
    have run: "take n xs = x # y # take ?k zs"
      by (simp add: xyz n)
    have len: "length (take n xs) = n"
      using countRun_le [of cmp ?d y zs] by (simp add: xyz n)
    have y: "y \<in> set xs" and x: "x \<in> set xs" and zs: "set zs \<subseteq> set xs"
      by (auto simp: xyz)
    show ?thesis
    proof (cases ?d)
      case False
      with assms(1) x y have "key y \<le> key x" by (simp add: not_less)
      moreover have s: "sorted_wrt (\<lambda>a b. key b \<le> key a) (y # take ?k zs)"
        using countRun_ascending [OF assms(1) y zs] False by simp
      moreover from s calculation have "\<forall>z \<in> set (take ?k zs). key z \<le> key x"
        by fastforce
      ultimately have "sorted_wrt (\<lambda>a b. key b \<le> key a) (take n xs)"
        unfolding run by simp
      with False ys show ?thesis by simp
    next
      case True
      with assms(1) x y have less: "key x < key y" by simp
      have s: "sorted_wrt (\<lambda>a b. key a < key b) (y # take ?k zs)"
        using countRun_descending [OF assms(1) y zs] True by simp
      with less have "\<forall>z \<in> set (take ?k zs). key x < key z"
        by fastforce
      with less s have strict: "sorted_wrt (\<lambda>a b. key a < key b) (take n xs)"
        unfolding run by simp
      from True ys len have t: "take n ys = rev (take n xs)" and d: "drop n ys = drop n xs"
        by simp_all
      have "sorted_wrt (\<lambda>a b. key b < key a) (rev (take n xs))"
        using strict by (simp add: sorted_wrt_rev)
      then have s: "sorted_wrt (\<lambda>a b. key b \<le> key a) (rev (take n xs))"
        by (rule sorted_wrt_mono_rel [rotated]) simp
      have "filter (\<lambda>z. key z = v) (rev (take n xs)) = filter (\<lambda>z. key z = v) (take n xs)"
        using filter_strict_run [OF strict, of v] by (simp add: rev_filter)
      with s t d show ?thesis by simp
    qed
  qed
qed

lemma binarySearch_position:
  fixes key :: "'a \<Rightarrow> int"
  assumes "\<forall>y \<in> set xs. (cmp pivot y < 0) = (key y < key pivot)"
    and "sorted_wrt (\<lambda>a b. key b \<le> key a) xs"
    and "right \<le> length xs"
    and "\<forall>i < left. key pivot \<le> key (xs ! i)"
    and "\<forall>i. right \<le> i \<and> i < length xs \<longrightarrow> key (xs ! i) < key pivot"
  shows "(\<forall>i < binarySearch cmp pivot xs left right. key pivot \<le> key (xs ! i)) \<and>
         (\<forall>i. binarySearch cmp pivot xs left right \<le> i \<and> i < length xs \<longrightarrow>
              key (xs ! i) < key pivot)"
  using assms(3-5)
proof (induction "right - left" arbitrary: left right rule: less_induct)
  case less
  show ?case
  proof (cases "left < right")
    case False
    then have stop: "binarySearch cmp pivot xs left right = left"
      by (subst binarySearch.simps) simp
    from False less.prems(3) have "\<forall>i. left \<le> i \<and> i < length xs \<longrightarrow> key (xs ! i) < key pivot"
      by simp
    with less.prems(2) show ?thesis
      unfolding stop by (rule conjI)
  next
    case True
    define mid where "mid = left + (right - left) div 2"
    from True have mid: "left \<le> mid" "mid < right" by (simp_all add: mid_def)
    with less.prems(1) have in_range: "mid < length xs" by simp
    then have member: "xs ! mid \<in> set xs" by simp
    show ?thesis
    proof (cases "cmp pivot (xs ! mid) < 0")
      case c: True
      with assms(1) member have below: "key (xs ! mid) < key pivot" by simp
      have step: "binarySearch cmp pivot xs left right = binarySearch cmp pivot xs left mid"
        using True c by (subst binarySearch.simps) (simp add: mid_def Let_def)
      have right': "\<forall>i. mid \<le> i \<and> i < length xs \<longrightarrow> key (xs ! i) < key pivot"
      proof (intro allI impI)
        fix i assume i: "mid \<le> i \<and> i < length xs"
        have "key (xs ! i) \<le> key (xs ! mid)"
        proof (cases "i = mid")
          case True
          then show ?thesis by simp
        next
          case False
          with i have "mid < i" "i < length xs" by simp_all
          from sorted_wrt_nth_less [OF assms(2) this] show ?thesis .
        qed
        with below show "key (xs ! i) < key pivot" by simp
      qed
      have measure: "mid - left < right - left" and bound: "mid \<le> length xs"
        using mid in_range by simp_all
      show ?thesis
        unfolding step using measure bound less.prems(2) right' by (rule less.hyps)
    next
      case c: False
      with assms(1) member have above: "key pivot \<le> key (xs ! mid)" by (simp add: not_less)
      have step: "binarySearch cmp pivot xs left right = binarySearch cmp pivot xs (mid + 1) right"
        using True c by (subst binarySearch.simps) (simp add: mid_def Let_def)
      have left': "\<forall>i < mid + 1. key pivot \<le> key (xs ! i)"
      proof (intro allI impI)
        fix i assume i: "i < mid + 1"
        have "key (xs ! mid) \<le> key (xs ! i)"
        proof (cases "i = mid")
          case True
          then show ?thesis by simp
        next
          case False
          with i have "i < mid" by simp
          from sorted_wrt_nth_less [OF assms(2) this in_range] show ?thesis .
        qed
        with above show "key pivot \<le> key (xs ! i)" by simp
      qed
      have measure: "right - (mid + 1) < right - left"
        using mid by simp
      show ?thesis
        unfolding step using measure less.prems(1) left' less.prems(3) by (rule less.hyps)
    qed
  qed
qed

lemma insert_at_sorted:
  fixes key :: "'a \<Rightarrow> int"
  assumes "sorted_wrt (\<lambda>a b. key b \<le> key a) xs"
    and "\<forall>i < r. key pivot \<le> key (xs ! i)"
    and "\<forall>i. r \<le> i \<and> i < length xs \<longrightarrow> key (xs ! i) < key pivot"
  shows "sorted_wrt (\<lambda>a b. key b \<le> key a) (take r xs @ pivot # drop r xs) \<and>
         filter (\<lambda>z. key z = v) (take r xs @ pivot # drop r xs) =
           filter (\<lambda>z. key z = v) xs @ (if key pivot = v then [pivot] else [])"
proof -
  have before: "key pivot \<le> key x" if "x \<in> set (take r xs)" for x
  proof -
    from that obtain i where "i < length (take r xs)" and "take r xs ! i = x"
      by (auto simp: in_set_conv_nth)
    then have "i < r" and "x = xs ! i" by simp_all
    with assms(2) show ?thesis by simp
  qed
  have after: "key x < key pivot" if "x \<in> set (drop r xs)" for x
  proof -
    from that obtain j where j: "j < length (drop r xs)" and x: "drop r xs ! j = x"
      by (auto simp: in_set_conv_nth)
    then have "r \<le> r + j \<and> r + j < length xs" and "x = xs ! (r + j)" by auto
    with assms(3) show ?thesis by blast
  qed
  have cross: "key y \<le> key x" if "x \<in> set (take r xs)" and "y \<in> set (drop r xs)" for x y
    using before [OF that(1)] after [OF that(2)] by simp
  have "sorted_wrt (\<lambda>a b. key b \<le> key a) (take r xs)"
    and "sorted_wrt (\<lambda>a b. key b \<le> key a) (drop r xs)"
    using assms(1) by (simp_all add: sorted_wrt_take sorted_wrt_drop)
  moreover have "\<forall>y \<in> set (drop r xs). key y \<le> key pivot"
    using after by (simp add: less_imp_le)
  moreover have "\<forall>x \<in> set (take r xs). \<forall>y \<in> set (pivot # drop r xs). key y \<le> key x"
    using before cross by simp
  ultimately have sorted: "sorted_wrt (\<lambda>a b. key b \<le> key a) (take r xs @ pivot # drop r xs)"
    by (simp only: sorted_wrt_append sorted_wrt.simps simp_thms)
  have split: "filter (\<lambda>z. key z = v) xs =
      filter (\<lambda>z. key z = v) (take r xs) @ filter (\<lambda>z. key z = v) (drop r xs)"
    by (simp only: filter_append [symmetric] append_take_drop_id)
  have "filter (\<lambda>z. key z = v) (take r xs @ pivot # drop r xs) =
           filter (\<lambda>z. key z = v) xs @ (if key pivot = v then [pivot] else [])"
  proof (cases "key pivot = v")
    case True
    have "filter (\<lambda>z. key z = v) (drop r xs) = []"
      unfolding filter_empty_conv using after True by fastforce
    with True split show ?thesis by simp
  next
    case False
    with split show ?thesis by simp
  qed
  with sorted show ?thesis by (rule conjI)
qed

lemma binaryInsertionSort_sorted:
  fixes key :: "'a \<Rightarrow> int"
  assumes "\<forall>x \<in> S. \<forall>y \<in> S. (cmp x y < 0) = (key y < key x)"
    and "set placed \<subseteq> S" and "set rest \<subseteq> S"
    and "sorted_wrt (\<lambda>a b. key b \<le> key a) placed"
  shows "sorted_wrt (\<lambda>a b. key b \<le> key a) (binaryInsertionSort cmp placed rest) \<and>
         filter (\<lambda>z. key z = v) (binaryInsertionSort cmp placed rest) =
           filter (\<lambda>z. key z = v) placed @ filter (\<lambda>z. key z = v) rest"
  using assms(2-4)
proof (induction rest arbitrary: placed)
  case Nil
  then show ?case by simp
next
  case (Cons pivot rest)
  let ?r = "binarySearch cmp pivot placed 0 (length placed)"
  let ?next = "take ?r placed @ pivot # drop ?r placed"
  from Cons.prems have pivot: "pivot \<in> S" and rest: "set rest \<subseteq> S" by simp_all
  have order: "\<forall>y \<in> set placed. (cmp pivot y < 0) = (key y < key pivot)"
    using assms(1) pivot Cons.prems(1) by blast
  have position:
    "(\<forall>i < ?r. key pivot \<le> key (placed ! i)) \<and>
     (\<forall>i. ?r \<le> i \<and> i < length placed \<longrightarrow> key (placed ! i) < key pivot)"
    using order Cons.prems(3) by (rule binarySearch_position) simp_all
  note inserted = insert_at_sorted [OF Cons.prems(3) position [THEN conjunct1]
      position [THEN conjunct2], where v = v]
  have "set (take ?r placed) \<subseteq> S" and "set (drop ?r placed) \<subseteq> S"
    using Cons.prems(1) set_take_subset [of ?r placed] set_drop_subset [of ?r placed] by blast+
  with pivot have "set ?next \<subseteq> S" by simp
  note ih = Cons.IH [OF this rest inserted [THEN conjunct1]]
  have step: "binaryInsertionSort cmp placed (pivot # rest) = binaryInsertionSort cmp ?next rest"
    by (simp add: Let_def)
  define F where "F = filter (\<lambda>z. key z = v)"
  have e: "F ?next = F placed @ (if key pivot = v then [pivot] else [])"
    unfolding F_def by (rule inserted [THEN conjunct2])
  have "F ?next @ F rest = F placed @ F (pivot # rest)"
    unfolding e by (simp add: F_def)
  with ih show ?case
    unfolding step F_def by simp
qed

lemma sortArray_sorted:
  fixes key :: "'a \<Rightarrow> int"
  assumes "\<forall>x \<in> set xs. \<forall>y \<in> set xs. (cmp x y < 0) = (key y < key x)"
  shows "sorted_wrt (\<lambda>a b. key b \<le> key a) (sortArray cmp xs) \<and>
         filter (\<lambda>z. key z = v) (sortArray cmp xs) = filter (\<lambda>z. key z = v) xs"
proof -
  obtain n ys where c: "countAndMakeRun cmp xs = (n, ys)" by (cases "countAndMakeRun cmp xs")
  note run = countAndMakeRun_sorted [OF assms c, where v = v]
  have "mset ys = mset xs"
    using mset_countAndMakeRun [of cmp xs] by (simp only: c snd_conv)
  then have "set ys = set xs" by (rule mset_eq_setD)
  then have sub: "set (take n ys) \<subseteq> set xs" "set (drop n ys) \<subseteq> set xs"
    using set_take_subset [of n ys] set_drop_subset [of n ys] by simp_all
  define F where "F = filter (\<lambda>z. key z = v)"
  have whole: "F (take n xs) @ F (drop n xs) = F xs"
    unfolding F_def by (simp only: filter_append [symmetric] append_take_drop_id)
  have out: "sortArray cmp xs = binaryInsertionSort cmp (take n ys) (drop n ys)"
    by (simp add: sortArray_def c)
  note placed = binaryInsertionSort_sorted [OF assms sub run [THEN conjunct1], where v = v]
  have "F (sortArray cmp xs) = F (take n ys) @ F (drop n ys)"
    unfolding out F_def by (rule placed [THEN conjunct2])
  also have "F (take n ys) = F (take n xs)"
    unfolding F_def using run by blast
  also have "drop n ys = drop n xs"
    using run by blast
  finally have "F (sortArray cmp xs) = F xs"
    by (simp only: whole)
  with placed [THEN conjunct1] show ?thesis
    unfolding out F_def by (rule conjI)
qed

lemma sortArray_stable:
  fixes key :: "'a \<Rightarrow> int"
  assumes "\<forall>x \<in> set xs. \<forall>y \<in> set xs. (cmp x y < 0) = (key y < key x)"
  shows "sortArray cmp xs = sort_key (\<lambda>x. - key x) xs"
proof (rule properties_for_sort_key [symmetric])
  show "mset (sortArray cmp xs) = mset xs"
    by (rule mset_sortArray)
next
  fix k
  have "filter (\<lambda>z. key z = key k) (sortArray cmp xs) = filter (\<lambda>z. key z = key k) xs"
    using sortArray_sorted [OF assms] by blast
  then show "filter (\<lambda>x. - key k = - key x) (sortArray cmp xs) = filter (\<lambda>x. - key k = - key x) xs"
    by (simp add: eq_commute)
next
  have "sorted_wrt (\<lambda>a b. key b \<le> key a) (sortArray cmp xs)"
    using sortArray_sorted [OF assms] by blast
  then show "sorted (map (\<lambda>x. - key x) (sortArray cmp xs))"
    by (simp add: sorted_map)
qed

lemma sorted_sortArray:
  fixes key :: "'a \<Rightarrow> int"
  assumes "\<And>x y. x \<in> set xs \<Longrightarrow> y \<in> set xs \<Longrightarrow> (cmp x y < 0) = (key y < key x)"
  shows "sorted_wrt (\<lambda>a b. key b \<le> key a) (sortArray cmp xs)"
proof -
  from assms have "\<forall>x \<in> set xs. \<forall>y \<in> set xs. (cmp x y < 0) = (key y < key x)" by blast
  from sortArray_sorted [OF this, where v = 0] show ?thesis by (rule conjunct1)
qed

section \<open>Properties of the post aggregator\<close>

lemma filterTags_filter:
  "filterTags tm sl ts =
     (filter (\<lambda>tag. tm tag \<noteq> None) ts, map (tagWarning sl) (filter (\<lambda>tag. tm tag = None) ts))"
  by (induction ts) auto

lemma length_bannerLoop: "length (bannerLoop pc ps) = length ps"
  by (induction ps arbitrary: pc) (auto simp: Let_def)

lemma length_postsOfSlug:
  "length (postsOfSlug e us hp colls sl) = length (indexFiles e (join [postsDirectory e, sl]))"
  by (simp add: postsOfSlug_map)

lemma length_getPosts:
  "length (fst (getPosts e us hp colls)) =
     length (concat (map (\<lambda>s. indexFiles e (join [postsDirectory e, s]))
                       (filter (isNotJunk e) (readdirSync e (postsDirectory e)))))"
  by (simp add: getPosts_def Let_def length_bannerLoop length_sortArray length_concat comp_def
      length_postsOfSlug)

lemma warnings_getPosts:
  "snd (getPosts e us hp colls) =
     concat (map snd (concat (map (postsOfSlug e us hp colls)
                                (filter (isNotJunk e) (readdirSync e (postsDirectory e))))))"
  by (simp add: getPosts_def Let_def)

text \<open>
  C6: the tags of a post are the tags of its frontmatter that the tag map
  knows, in their order; the building of the post writes one warning for each
  tag it drops, in their order, and the warning starts with the slug and
  quotes the tag; \<open>getPosts\<close> returns one post for each index file, whatever
  the tags, and has written the warnings of all of them. Of the tags
  \<open>["valid-tag", "bogus-tag"]\<close>, with only the first one known, \<open>["valid-tag"]\<close>
  is kept.
\<close>

theorem tag_validation:
  fixes e :: env and sl fname :: string
  defines "frontmatter \<equiv> matterPost e (readFileSync e (join [postsDirectory e, sl, fname]))"
  shows "tags (fst (postOfFile e us hp colls sl ls i fname)) =
           filter (\<lambda>tag. tagsMap e tag \<noteq> None) (tags frontmatter) \<and>
         snd (postOfFile e us hp colls sl ls i fname) =
           map (tagWarning sl) (filter (\<lambda>tag. tagsMap e tag = None) (tags frontmatter)) \<and>
         tagWarning sl tag =
           sl @ '': Tag '' @ [CHR 0x27] @ tag @ [CHR 0x27] @
           '' is not specified in content/data/tags.json! Filtering...'' \<and>
         length (fst (getPosts e us hp colls)) =
           length (concat (map (\<lambda>s. indexFiles e (join [postsDirectory e, s]))
                             (filter (isNotJunk e) (readdirSync e (postsDirectory e))))) \<and>
         snd (getPosts e us hp colls) =
           concat (map snd (concat (map (postsOfSlug e us hp colls)
                                      (filter (isNotJunk e) (readdirSync e (postsDirectory e)))))) \<and>
         (tm ''valid-tag'' \<noteq> None \<and> tm ''bogus-tag'' = None \<longrightarrow>
            filterTags tm sl [''valid-tag'', ''bogus-tag''] =
              ([''valid-tag''], [tagWarning sl ''bogus-tag'']))"
  unfolding frontmatter_def
  using length_getPosts [of e us hp colls] warnings_getPosts [of e us hp colls]
  by (simp add: postOfFile_fields filterTags_filter tagWarning_def)

text \<open>
  C6, witness: the post \<open>first\<close> of the small site lists \<open>valid-tag\<close> and
  \<open>bogus-tag\<close>, and the tag map knows only the first.
\<close>

theorem tag_validation_witness:
  "tagsMap siteEnv ''valid-tag'' \<noteq> None \<and> tagsMap siteEnv ''bogus-tag'' = None \<and>
   filterTags (tagsMap siteEnv) ''first'' [''valid-tag'', ''bogus-tag''] =
     ([''valid-tag''], [tagWarning ''first'' ''bogus-tag'']) \<and>
   tags (matterPost siteEnv (readFileSync siteEnv (join [postsDirectory siteEnv, ''first'', ''index.md'']))) =
     [''valid-tag'', ''bogus-tag''] \<and>
   tags (fst (postOfFile siteEnv [] [] [] ''first'' [] 0 ''index.md'')) = [''valid-tag''] \<and>
   snd (postOfFile siteEnv [] [] [] ''first'' [] 0 ''index.md'') = [tagWarning ''first'' ''bogus-tag''] \<and>
   length (fst (getPosts siteEnv [] [] [])) = 4"
proof -
  note post = tag_validation [of siteEnv "[]" "[]" "[]" "''first''" "[]" 0 "''index.md''"
      "''bogus-tag''" "tagsMap siteEnv"]
  have k: "tagsMap siteEnv ''valid-tag'' \<noteq> None \<and> tagsMap siteEnv ''bogus-tag'' = None"
    by (simp add: siteEnv_def)
  have t: "tags (matterPost siteEnv
             (readFileSync siteEnv (join [postsDirectory siteEnv, ''first'', ''index.md'']))) =
           [''valid-tag'', ''bogus-tag'']"
    by code_simp
  have n: "length (concat (map (\<lambda>s. indexFiles siteEnv (join [postsDirectory siteEnv, s]))
             (filter (isNotJunk siteEnv) (readdirSync siteEnv (postsDirectory siteEnv))))) = 4"
    by code_simp
  from post k t n show ?thesis by (simp del: join.simps)
qed

subsection \<open>The word count\<close>

lemma tokensFrom_dropWhile:
  "tokensFrom [] (dropWhile isWhiteSpace s) = tokensFrom [] s"
  by (induction s) auto

lemma last_dropWhile_whitespace:
  "dropWhile isWhiteSpace s \<noteq> [] \<Longrightarrow> last (dropWhile isWhiteSpace s) = last s"
  by (induction s) (auto split: if_splits)

lemma dropWhile_all_whitespace:
  "dropWhile isWhiteSpace s = [] \<Longrightarrow> s \<noteq> [] \<Longrightarrow> isWhiteSpace (last s)"
  by (induction s) (auto split: if_splits)

lemma hd_dropWhile_whitespace:
  "dropWhile isWhiteSpace s \<noteq> [] \<Longrightarrow> \<not> isWhiteSpace (hd (dropWhile isWhiteSpace s))"
  using hd_dropWhile by blast

lemma length_splitWhitespace:
  "length (splitWhitespace cur s) =
     length (tokensFrom cur s)
     + (if cur = [] \<and> (s = [] \<or> isWhiteSpace (hd s)) then 1 else 0)
     + (if s \<noteq> [] \<and> isWhiteSpace (last s) then 1 else 0)"
proof (induction cur s rule: splitWhitespace.induct)
  case (1 cur)
  show ?case by simp
next
  case (2 cur c cs)
  show ?case
  proof (cases "isWhiteSpace c")
    case True
    let ?r = "dropWhile isWhiteSpace cs"
    have ih: "length (splitWhitespace [] ?r) =
        length (tokensFrom [] cs) + (if ?r = [] then 1 else 0)
        + (if ?r \<noteq> [] \<and> isWhiteSpace (last ?r) then 1 else 0)"
      using "2.IH"(1) [OF True] hd_dropWhile_whitespace [of cs]
      by (auto simp: tokensFrom_dropWhile)
    have tail: "(if ?r = [] then 1 else 0) + (if ?r \<noteq> [] \<and> isWhiteSpace (last ?r) then 1 else 0)
        = (if isWhiteSpace (last (c # cs)) then 1 else (0::nat))"
      using True last_dropWhile_whitespace [of cs] dropWhile_all_whitespace [of cs]
      by (cases "cs = []") auto
    from True ih tail show ?thesis by simp
  next
    case False
    with "2.IH"(2) show ?thesis by simp
  qed
qed

lemma wordCountOf_tokens:
  "wordCountOf s =
     (if s = [] then 1
      else length (whitespaceTokens s) + (if isWhiteSpace (hd s) then 1 else 0)
           + (if isWhiteSpace (last s) then 1 else 0))"
  by (simp add: wordCountOf_def whitespaceTokens_def length_splitWhitespace)

lemma filter_splitWhitespace:
  "filter (\<lambda>w. w \<noteq> []) (splitWhitespace cur s) = tokensFrom cur s"
  by (induction cur s rule: splitWhitespace.induct) (auto simp: tokensFrom_dropWhile)

text \<open>
  C9, counterexample: the file \<open>first/index.md\<close> of the small site reads
  \<open>"first post "\<close>, two tokens and a space; its word count is three.
\<close>

theorem word_count_counterexample:
  "wordCount (fst (postOfFile siteEnv [] [] [] ''first'' [] 0 ''index.md'')) \<noteq>
     length (whitespaceTokens
               (readFileSync siteEnv (join [postsDirectory siteEnv, ''first'', ''index.md''])))"
proof -
  have r: "readFileSync siteEnv (join [postsDirectory siteEnv, ''first'', ''index.md'']) =
             ''first post ''"
    by code_simp
  have w: "wordCountOf ''first post '' = 3" by code_simp
  have t: "length (whitespaceTokens ''first post '') = 2" by code_simp
  from r w t show ?thesis by (simp add: postOfFile_fields del: join.simps)
qed

text \<open>
  C9, as amended: the word count of a post is the number of pieces into which
  \<open>split\<close> cuts the raw text of the file (frontmatter and body together) at
  its runs of whitespace. The whitespace-separated tokens are the pieces that
  are not empty; a text that starts with whitespace has an empty piece before
  its first token and a text that ends with whitespace has one after its last,
  so the count is the number of tokens, plus one for whitespace at the start,
  plus one for whitespace at the end, and it is one for the empty text.
\<close>

theorem word_count_amended:
  "wordCount (fst (postOfFile e us hp colls sl ls i fname)) =
     wordCountOf (readFileSync e (join [postsDirectory e, sl, fname])) \<and>
   wordCountOf s = length (splitWhitespace [] s) \<and>
   whitespaceTokens s = filter (\<lambda>w. w \<noteq> []) (splitWhitespace [] s) \<and>
   wordCountOf s =
     (if s = [] then 1
      else length (whitespaceTokens s) + (if isWhiteSpace (hd s) then 1 else 0)
           + (if isWhiteSpace (last s) then 1 else 0))"
  using wordCountOf_tokens [of s]
  by (simp add: postOfFile_fields wordCountOf_def whitespaceTokens_def filter_splitWhitespace)

text \<open>C9, witness: the same file, whose text ends with a space.\<close>

theorem word_count_amended_witness:
  "wordCount (fst (postOfFile siteEnv [] [] [] ''first'' [] 0 ''index.md'')) = 3 \<and>
   splitWhitespace [] ''first post '' = [''first'', ''post'', []] \<and>
   whitespaceTokens ''first post '' = [''first'', ''post''] \<and>
   \<not> isWhiteSpace (hd ''first post '') \<and> isWhiteSpace (last ''first post '')"
proof -
  have r: "readFileSync siteEnv (join [postsDirectory siteEnv, ''first'', ''index.md'']) =
             ''first post ''"
    by code_simp
  have p: "splitWhitespace [] ''first post '' = [''first'', ''post'', []]" by code_simp
  have h: "\<not> isWhiteSpace (hd ''first post '') \<and> isWhiteSpace (last ''first post '')"
    by code_simp
  from word_count_amended [of siteEnv "[]" "[]" "[]" "''first''" "[]" 0 "''index.md''"
      "''first post ''"] r p h
  show ?thesis by (simp del: join.simps)
qed

section \<open>Properties of the date order\<close>

lemma dateGreater_valid: "dateGreater (Some t1) (Some t2) \<longleftrightarrow> t2 < t1"
  by (simp add: dateGreater_def)

lemma dateGreater_irrefl: "\<not> dateGreater d d"
  by (simp add: dateGreater_def split: option.splits)

lemma collectionCompare_value:
  "collectionCompare e c1 c2 =
     (if dateGreater (newDate e (raw_collection_info.published c1))
           (newDate e (raw_collection_info.published c2)) then - 1 else 1)"
  by (simp add: collectionCompare_def Let_def)

lemma postCompare_value:
  "postCompare e p1 p2 =
     (if dateGreater (newDate e (published p1)) (newDate e (published p2)) then - 1 else 1)"
  by (simp add: postCompare_def Let_def)

lemma sorted_getCollections:
  assumes "\<forall>c \<in> set (getCollections e us). newDate e (raw_collection_info.published c) \<noteq> None"
  shows "sorted_wrt (\<lambda>a b. the (newDate e (raw_collection_info.published b))
                          \<le> the (newDate e (raw_collection_info.published a)))
           (getCollections e us)"
proof -
  let ?all = "concat (map (collectionsOfSlug e us)
                (filter (isNotJunk e) (readdirSync e (collectionsDirectory e))))
              @ map (collectionOfMapping us) (collectionMapping e)"
  have out: "getCollections e us = sortArray (collectionCompare e) ?all"
    by (simp add: getCollections_def Let_def)
  have valid: "\<forall>c \<in> set ?all. newDate e (raw_collection_info.published c) \<noteq> None"
    using assms unfolding out set_sortArray .
  have "sorted_wrt (\<lambda>a b. the (newDate e (raw_collection_info.published b))
                          \<le> the (newDate e (raw_collection_info.published a)))
          (sortArray (collectionCompare e) ?all)"
  proof (rule sorted_sortArray)
    fix x y assume "x \<in> set ?all" and "y \<in> set ?all"
    with valid obtain t1 t2 where "newDate e (raw_collection_info.published x) = Some t1"
      and "newDate e (raw_collection_info.published y) = Some t2"
      by blast
    then show "(collectionCompare e x y < 0) =
        (the (newDate e (raw_collection_info.published y))
           < the (newDate e (raw_collection_info.published x)))"
      by (simp add: collectionCompare_value dateGreater_valid)
  qed
  with out show ?thesis by simp
qed

lemma published_bannerLoop: "map published (bannerLoop pc ps) = map published ps"
  by (induction ps arbitrary: pc) (auto simp: Let_def)

lemma sorted_getPosts:
  assumes "\<forall>p \<in> set (fst (getPosts e us hp colls)). newDate e (published p) \<noteq> None"
  shows "sorted_wrt (\<lambda>a b. the (newDate e (published b)) \<le> the (newDate e (published a)))
           (fst (getPosts e us hp colls))"
proof -
  let ?built = "map fst (concat (map (postsOfSlug e us hp colls)
                  (filter (isNotJunk e) (readdirSync e (postsDirectory e)))))"
  let ?sorted = "sortArray (postCompare e) ?built"
  let ?key = "\<lambda>s. the (newDate e s)"
  have out: "fst (getPosts e us hp colls) = bannerLoop Map.empty ?sorted"
    by (simp add: getPosts_def Let_def)
  have pub: "map published (fst (getPosts e us hp colls)) = map published ?sorted"
    by (simp add: out published_bannerLoop)
  have "\<forall>s \<in> set (map published (fst (getPosts e us hp colls))). newDate e s \<noteq> None"
    using assms by simp
  then have "\<forall>s \<in> set (map published ?sorted). newDate e s \<noteq> None"
    by (simp only: pub)
  then have valid: "\<forall>p \<in> set ?built. newDate e (published p) \<noteq> None"
    by (simp add: set_sortArray)
  have "sorted_wrt (\<lambda>a b. ?key (published b) \<le> ?key (published a)) ?sorted"
  proof (rule sorted_sortArray)
    fix x y assume "x \<in> set ?built" and "y \<in> set ?built"
    with valid obtain t1 t2 where "newDate e (published x) = Some t1"
      and "newDate e (published y) = Some t2"
      by blast
    then show "(postCompare e x y < 0) = (?key (published y) < ?key (published x))"
      by (simp add: postCompare_value dateGreater_valid)
  qed
  then have "sorted_wrt (\<lambda>s t. ?key t \<le> ?key s) (map published ?sorted)"
    by (simp add: sorted_wrt_map)
  then have "sorted_wrt (\<lambda>s t. ?key t \<le> ?key s) (map published (fst (getPosts e us hp colls)))"
    by (simp only: pub)
  then show ?thesis by (simp add: sorted_wrt_map)
qed

lemma nonIncreasingDates_valid:
  assumes "\<forall>x \<in> set xs. D (f x) \<noteq> None"
    and "sorted_wrt (\<lambda>a b. the (D (f b)) \<le> the (D (f a))) xs"
  shows "nonIncreasingDates D (map f xs)"
proof -
  have "\<not> dateGreater (D (f y)) (D (f x))"
    if "x \<in> set xs" and "y \<in> set xs" and "the (D (f y)) \<le> the (D (f x))" for x y
  proof -
    from assms(1) that(1,2) obtain tx ty where "D (f x) = Some tx" and "D (f y) = Some ty"
      by blast
    with that(3) show ?thesis by (simp add: dateGreater_valid)
  qed
  then have "sorted_wrt (\<lambda>x y. \<not> dateGreater (D (f y)) (D (f x))) xs"
    using assms(2) by (rule sorted_wrt_mono_rel)
  then show ?thesis
    by (simp add: nonIncreasingDates_def sorted_wrt_map)
qed

text \<open>
  C1, counterexample: on the site of the posts and collections \<open>a\<close> of 2020,
  \<open>b\<close> of no date and \<open>c\<close> of 2021, every element compares as \<open>1\<close> with the one
  before it, the sort takes the three for a run and leaves them as they are:
  2020 stays before 2021.
\<close>

theorem date_order_counterexample:
  "map published (fst (getPosts typoEnv [] [] [])) =
     [''2020-01-01'', ''not a date'', ''2021-01-01''] \<and>
   map raw_collection_info.published (getCollections typoEnv []) =
     [''2020-01-01'', ''not a date'', ''2021-01-01''] \<and>
   newDate typoEnv ''2020-01-01'' = Some 1577836800000 \<and>
   newDate typoEnv ''not a date'' = None \<and>
   newDate typoEnv ''2021-01-01'' = Some 1609459200000 \<and>
   \<not> nonIncreasingDates (newDate typoEnv) (map published (fst (getPosts typoEnv [] [] []))) \<and>
   \<not> nonIncreasingDates (newDate typoEnv)
       (map raw_collection_info.published (getCollections typoEnv []))"
proof -
  have ps: "map published (fst (getPosts typoEnv [] [] [])) =
     [''2020-01-01'', ''not a date'', ''2021-01-01'']"
    by code_simp
  have cs: "map raw_collection_info.published (getCollections typoEnv []) =
     [''2020-01-01'', ''not a date'', ''2021-01-01'']"
    by code_simp
  have d: "newDate typoEnv ''2020-01-01'' = Some 1577836800000"
    "newDate typoEnv ''not a date'' = None"
    "newDate typoEnv ''2021-01-01'' = Some 1609459200000"
    by (simp_all add: typoEnv_def)
  have n: "\<not> nonIncreasingDates (newDate typoEnv)
      [''2020-01-01'', ''not a date'', ''2021-01-01'']"
    by (simp add: nonIncreasingDates_def d dateGreater_def)
  from ps cs d n show ?thesis by simp
qed

text \<open>
  C1, as amended: the comparator of the collection sort and the comparator of
  the post sort each return \<open>-1\<close> when the first record's published date is
  strictly later than the second's and \<open>1\<close> otherwise, never \<open>0\<close>; two records
  with the same date compare as \<open>1\<close>, in either order, and so does every pair
  with a published string that is no date. When every published string is a
  date, the collections that \<open>getCollections\<close> returns and the posts that
  \<open>getPosts\<close> returns are in the order of non-increasing published date.
\<close>

theorem date_descending_sort:
  "collectionCompare e c1 c2 =
     (if dateGreater (newDate e (raw_collection_info.published c1))
           (newDate e (raw_collection_info.published c2)) then - 1 else 1) \<and>
   postCompare e p1 p2 =
     (if dateGreater (newDate e (published p1)) (newDate e (published p2)) then - 1 else 1) \<and>
   (dateGreater d1 d2 \<longleftrightarrow> (\<exists>s1 s2. d1 = Some s1 \<and> d2 = Some s2 \<and> s2 < s1)) \<and>
   (newDate e (raw_collection_info.published c1) = Some t1 \<and>
    newDate e (raw_collection_info.published c2) = Some t2 \<longrightarrow>
      collectionCompare e c1 c2 = (if t2 < t1 then - 1 else 1)) \<and>
   (newDate e (published p1) = Some t1 \<and> newDate e (published p2) = Some t2 \<longrightarrow>
      postCompare e p1 p2 = (if t2 < t1 then - 1 else 1)) \<and>
   (collectionCompare e c1 c2 = - 1 \<or> collectionCompare e c1 c2 = 1) \<and>
   (postCompare e p1 p2 = - 1 \<or> postCompare e p1 p2 = 1) \<and>
   collectionCompare e c1 c2 \<noteq> 0 \<and> postCompare e p1 p2 \<noteq> 0 \<and>
   (newDate e (raw_collection_info.published c1) = newDate e (raw_collection_info.published c2) \<longrightarrow>
      collectionCompare e c1 c2 = 1 \<and> collectionCompare e c2 c1 = 1) \<and>
   (newDate e (published p1) = newDate e (published p2) \<longrightarrow>
      postCompare e p1 p2 = 1 \<and> postCompare e p2 p1 = 1) \<and>
   ((\<forall>c \<in> set (getCollections e us). newDate e (raw_collection_info.published c) \<noteq> None) \<longrightarrow>
      sorted_wrt (\<lambda>a b. the (newDate e (raw_collection_info.published b))
                         \<le> the (newDate e (raw_collection_info.published a)))
        (getCollections e us)) \<and>
   ((\<forall>p \<in> set (fst (getPosts e us hp colls)). newDate e (published p) \<noteq> None) \<longrightarrow>
      sorted_wrt (\<lambda>a b. the (newDate e (published b)) \<le> the (newDate e (published a)))
        (fst (getPosts e us hp colls))) \<and>
   ((\<forall>c \<in> set (getCollections e us). newDate e (raw_collection_info.published c) \<noteq> None) \<longrightarrow>
      nonIncreasingDates (newDate e)
        (map raw_collection_info.published (getCollections e us))) \<and>
   ((\<forall>p \<in> set (fst (getPosts e us hp colls)). newDate e (published p) \<noteq> None) \<longrightarrow>
      nonIncreasingDates (newDate e) (map published (fst (getPosts e us hp colls))))"
proof -
  have nc: "(\<forall>c \<in> set (getCollections e us). newDate e (raw_collection_info.published c) \<noteq> None) \<longrightarrow>
      nonIncreasingDates (newDate e)
        (map raw_collection_info.published (getCollections e us))"
    using sorted_getCollections [of e us]
    by (auto intro: nonIncreasingDates_valid)
  have np: "(\<forall>p \<in> set (fst (getPosts e us hp colls)). newDate e (published p) \<noteq> None) \<longrightarrow>
      nonIncreasingDates (newDate e) (map published (fst (getPosts e us hp colls)))"
    using sorted_getPosts [of e us hp colls]
    by (auto intro: nonIncreasingDates_valid)
  have cv: "newDate e (raw_collection_info.published c1) = Some t1 \<and>
      newDate e (raw_collection_info.published c2) = Some t2 \<longrightarrow>
      collectionCompare e c1 c2 = (if t2 < t1 then - 1 else 1)"
    by (simp add: collectionCompare_value dateGreater_valid)
  have pv: "newDate e (published p1) = Some t1 \<and> newDate e (published p2) = Some t2 \<longrightarrow>
      postCompare e p1 p2 = (if t2 < t1 then - 1 else 1)"
    by (simp add: postCompare_value dateGreater_valid)
  have c2: "collectionCompare e c1 c2 = - 1 \<or> collectionCompare e c1 c2 = 1"
    and p2: "postCompare e p1 p2 = - 1 \<or> postCompare e p1 p2 = 1"
    by (simp_all add: collectionCompare_value postCompare_value)
  have c0: "collectionCompare e c1 c2 \<noteq> 0" and p0: "postCompare e p1 p2 \<noteq> 0"
    by (simp_all add: collectionCompare_value postCompare_value)
  have ce: "newDate e (raw_collection_info.published c1)
        = newDate e (raw_collection_info.published c2) \<longrightarrow>
      collectionCompare e c1 c2 = 1 \<and> collectionCompare e c2 c1 = 1"
    by (simp add: collectionCompare_value dateGreater_irrefl)
  have pe: "newDate e (published p1) = newDate e (published p2) \<longrightarrow>
      postCompare e p1 p2 = 1 \<and> postCompare e p2 p1 = 1"
    by (simp add: postCompare_value dateGreater_irrefl)
  have dg: "dateGreater d1 d2 \<longleftrightarrow> (\<exists>s1 s2. d1 = Some s1 \<and> d2 = Some s2 \<and> s2 < s1)"
    by (simp add: dateGreater_def split: option.splits)
  from collectionCompare_value [of e c1 c2] postCompare_value [of e p1 p2] dg
    cv pv c2 p2 c0 p0 ce pe sorted_getCollections [of e us] sorted_getPosts [of e us hp colls]
    nc np
  show ?thesis by blast
qed

text \<open>
  C1, witness: on the small site every date is valid; the mapped collection
  and the post \<open>second\<close> are of May, the others of the first of March.
\<close>

theorem date_descending_sort_witness:
  "newDate siteEnv (raw_collection_info.published mapped) = Some 1714521600000 \<and>
   newDate siteEnv (raw_collection_info.published seriesEn) = Some 1709251200000 \<and>
   newDate siteEnv (raw_collection_info.published seriesFr) = Some 1709251200000 \<and>
   collectionCompare siteEnv mapped seriesEn = - 1 \<and>
   collectionCompare siteEnv seriesEn mapped = 1 \<and>
   collectionCompare siteEnv seriesEn seriesFr = 1 \<and>
   collectionCompare siteEnv seriesFr seriesEn = 1 \<and>
   newDate siteEnv (published secondPost) = Some 1714521600000 \<and>
   newDate siteEnv (published firstPost) = Some 1709251200000 \<and>
   newDate siteEnv (published thirdPost) = Some 1709251200000 \<and>
   postCompare siteEnv secondPost firstPost = - 1 \<and>
   postCompare siteEnv firstPost secondPost = 1 \<and>
   postCompare siteEnv firstPost thirdPost = 1 \<and>
   postCompare siteEnv thirdPost firstPost = 1 \<and>
   list_all (\<lambda>c. newDate siteEnv (raw_collection_info.published c) \<noteq> None)
     (getCollections siteEnv []) \<and>
   map raw_collection_info.published (getCollections siteEnv []) =
     [''2024-05-01'', ''2024-03-01'', ''2024-03-01''] \<and>
   sorted_wrt (\<lambda>a b. the (newDate siteEnv (raw_collection_info.published b))
                      \<le> the (newDate siteEnv (raw_collection_info.published a)))
     (getCollections siteEnv []) \<and>
   list_all (\<lambda>p. newDate siteEnv (published p) \<noteq> None) (fst (getPosts siteEnv [] [] [])) \<and>
   map published (fst (getPosts siteEnv [] [] [])) =
     [''2024-05-01'', ''2024-03-01'', ''2024-03-01'', ''2024-03-01''] \<and>
   sorted_wrt (\<lambda>a b. the (newDate siteEnv (published b)) \<le> the (newDate siteEnv (published a)))
     (fst (getPosts siteEnv [] [] [])) \<and>
   nonIncreasingDates (newDate siteEnv)
     (map raw_collection_info.published (getCollections siteEnv [])) \<and>
   nonIncreasingDates (newDate siteEnv) (map published (fst (getPosts siteEnv [] [] [])))"
proof -
  have dc: "newDate siteEnv (raw_collection_info.published mapped) = Some 1714521600000"
    "newDate siteEnv (raw_collection_info.published seriesEn) = Some 1709251200000"
    "newDate siteEnv (raw_collection_info.published seriesFr) = Some 1709251200000"
    by code_simp+
  have dp: "newDate siteEnv (published secondPost) = Some 1714521600000"
    "newDate siteEnv (published firstPost) = Some 1709251200000"
    "newDate siteEnv (published thirdPost) = Some 1709251200000"
    by code_simp+
  have lc: "map raw_collection_info.published (getCollections siteEnv []) =
     [''2024-05-01'', ''2024-03-01'', ''2024-03-01'']"
    by code_simp
  have lp: "map published (fst (getPosts siteEnv [] [] [])) =
     [''2024-05-01'', ''2024-03-01'', ''2024-03-01'', ''2024-03-01'']"
    by code_simp
  have vc: "\<forall>c \<in> set (getCollections siteEnv []).
      newDate siteEnv (raw_collection_info.published c) \<noteq> None"
    by code_simp
  have vp: "\<forall>p \<in> set (fst (getPosts siteEnv [] [] [])). newDate siteEnv (published p) \<noteq> None"
    by code_simp
  note a = date_descending_sort [where e = siteEnv and ?c1.0 = mapped and ?t1.0 = 1714521600000
      and ?c2.0 = seriesEn and ?t2.0 = 1709251200000 and ?p1.0 = secondPost and ?p2.0 = firstPost
      and us = "[]" and hp = "[]" and colls = "[]"]
  note b = date_descending_sort [where e = siteEnv and ?c1.0 = seriesEn and ?t1.0 = 1709251200000
      and ?c2.0 = mapped and ?t2.0 = 1714521600000 and ?p1.0 = firstPost and ?p2.0 = secondPost
      and us = "[]" and hp = "[]" and colls = "[]"]
  note c = date_descending_sort [where e = siteEnv and ?c1.0 = seriesEn and ?t1.0 = 1709251200000
      and ?c2.0 = seriesFr and ?t2.0 = 1709251200000 and ?p1.0 = firstPost and ?p2.0 = thirdPost
      and us = "[]" and hp = "[]" and colls = "[]"]
  from a dc dp have r1: "collectionCompare siteEnv mapped seriesEn = - 1"
    "postCompare siteEnv secondPost firstPost = - 1"
    by simp_all
  from b dc dp have r2: "collectionCompare siteEnv seriesEn mapped = 1"
    "postCompare siteEnv firstPost secondPost = 1"
    by simp_all
  from c dc dp have r3: "collectionCompare siteEnv seriesEn seriesFr = 1"
    "collectionCompare siteEnv seriesFr seriesEn = 1"
    "postCompare siteEnv firstPost thirdPost = 1"
    "postCompare siteEnv thirdPost firstPost = 1"
    by simp_all
  from a vc vp have r4:
    "sorted_wrt (\<lambda>a b. the (newDate siteEnv (raw_collection_info.published b))
                      \<le> the (newDate siteEnv (raw_collection_info.published a)))
       (getCollections siteEnv [])"
    "sorted_wrt (\<lambda>a b. the (newDate siteEnv (published b)) \<le> the (newDate siteEnv (published a)))
       (fst (getPosts siteEnv [] [] []))"
    by blast+
  from vc vp have va:
    "list_all (\<lambda>c. newDate siteEnv (raw_collection_info.published c) \<noteq> None)
       (getCollections siteEnv [])"
    "list_all (\<lambda>p. newDate siteEnv (published p) \<noteq> None) (fst (getPosts siteEnv [] [] []))"
    by (simp_all only: list_all_iff)
  from a vc vp have r5:
    "nonIncreasingDates (newDate siteEnv)
       (map raw_collection_info.published (getCollections siteEnv []))"
    "nonIncreasingDates (newDate siteEnv) (map published (fst (getPosts siteEnv [] [] [])))"
    by blast+
  from dc dp lc lp va r1 r2 r3 r4 r5 show ?thesis by blast
qed

section \<open>Properties of the banner pass\<close>




















section \<open>Properties of the cross-linker\<close>

lemma loadContent_Inr:
  assumes "loadContent e = Inr st"
  shows "fullUnicorns (newURL e) (unicornsRaw e) = Inr (unicorns st)"
    and "posts st = fst (getPosts e (unicorns st) (getCollections e (unicorns st))
                           [0 ..< length (getCollections e (unicorns st))])"
    and "warnings st = snd (getPosts e (unicorns st) (getCollections e (unicorns st))
                              [0 ..< length (getCollections e (unicorns st))])"
    and "collections st = [length (getCollections e (unicorns st)) ..<
                           length (getCollections e (unicorns st))
                           + length (getCollections e (unicorns st))]"
    and "heap st = getCollections e (unicorns st) @
           map (\<lambda>a. (getCollections e (unicorns st) ! a)\<lparr>collection_info.posts :=
                  Some (filter (\<lambda>post. collection post =
                                  Some (collection_info.slug (getCollections e (unicorns st) ! a)))
                          (posts st))\<rparr>)
             [0 ..< length (getCollections e (unicorns st))]"
  using assms
  by (auto simp: loadContent_def crossLink_def Let_def split: sum.splits prod.splits)


lemma heap_new:
  assumes "loadContent e = Inr st" and "k < length (getCollections e (unicorns st))"
  shows "heap st ! (length (getCollections e (unicorns st)) + k) =
           (getCollections e (unicorns st) ! k)\<lparr>collection_info.posts :=
              Some (filter (\<lambda>post. collection post =
                              Some (collection_info.slug (getCollections e (unicorns st) ! k)))
                      (posts st))\<rparr>"
  using assms(2) by (simp add: loadContent_Inr(5) [OF assms(1)] nth_append)

lemma posts_collectionsOfSlug:
  "c \<in> set (collectionsOfSlug e us sl) \<Longrightarrow> collection_info.posts c = None"
  by (auto simp: collectionsOfSlug_map Let_def raw_collection_info.defs collection_info.defs)

lemma posts_collectionOfMapping: "collection_info.posts (collectionOfMapping us entry) = None"
  by (simp add: collectionOfMapping_def Let_def raw_collection_info.defs collection_info.defs
      split: prod.splits)

lemma posts_getCollections: "c \<in> set (getCollections e us) \<Longrightarrow> collection_info.posts c = None"
  using posts_collectionsOfSlug posts_collectionOfMapping
  by (fastforce simp: getCollections_def Let_def set_sortArray)

lemma exported_collection_posts:
  assumes "loadContent e = Inr st" and "a \<in> set (collections st)"
  shows "collection_info.posts (heap st ! a) =
           Some (filter (\<lambda>post. collection post = Some (collection_info.slug (heap st ! a)))
                   (posts st))"
proof -
  let ?n = "length (getCollections e (unicorns st))"
  from assms(2) obtain k where k: "k < ?n" and a: "a = ?n + k"
    using loadContent_Inr(4) [OF assms(1)] by (auto simp: nat_le_iff_add)
  show ?thesis by (simp add: a heap_new [OF assms(1) k])
qed

text \<open>
  C8: when the module has been evaluated, the exported collections are the
  collections of \<open>getCollections\<close>, in their order, each with a \<open>posts\<close> field
  added: the list of the exported posts whose \<open>collection\<close> is the slug of the
  collection. That list is a subsequence of the exported posts, holds exactly
  the posts with that \<open>collection\<close>, and is the empty list, not an absent
  field, when there is none.
\<close>

theorem cross_linking:
  assumes "loadContent e = Inr st"
  shows "map (\<lambda>a. (heap st ! a)\<lparr>collection_info.posts := None\<rparr>) (collections st) =
           getCollections e (unicorns st) \<and>
         posts st = fst (getPosts e (unicorns st) (getCollections e (unicorns st))
                           [0 ..< length (getCollections e (unicorns st))]) \<and>
         (\<forall>a \<in> set (collections st).
            collection_info.posts (heap st ! a) =
              Some (filter (\<lambda>post. collection post = Some (collection_info.slug (heap st ! a)))
                      (posts st)) \<and>
            subseq (filter (\<lambda>post. collection post = Some (collection_info.slug (heap st ! a)))
                      (posts st))
              (posts st) \<and>
            ((\<forall>post \<in> set (posts st). collection post \<noteq> Some (collection_info.slug (heap st ! a)))
               \<longrightarrow> collection_info.posts (heap st ! a) = Some []))"
proof -
  let ?cs = "getCollections e (unicorns st)"
  let ?n = "length ?cs"
  note parts = loadContent_Inr [OF assms]
  have new: "heap st ! (?n + k) =
      (?cs ! k)\<lparr>collection_info.posts :=
         Some (filter (\<lambda>post. collection post = Some (collection_info.slug (?cs ! k))) (posts st))\<rparr>"
    if "k < ?n" for k
    using heap_new [OF assms that] .
  have none: "collection_info.posts (?cs ! k) = None" if "k < ?n" for k
    using that posts_getCollections [of "?cs ! k" e "unicorns st"] by simp
  have same: "map (\<lambda>a. (heap st ! a)\<lparr>collection_info.posts := None\<rparr>) (collections st) = ?cs"
  proof (rule nth_equalityI)
    show "length (map (\<lambda>a. (heap st ! a)\<lparr>collection_info.posts := None\<rparr>) (collections st)) = ?n"
      by (simp add: parts(4))
  next
    fix k assume "k < length (map (\<lambda>a. (heap st ! a)\<lparr>collection_info.posts := None\<rparr>) (collections st))"
    then have k: "k < ?n" by (simp add: parts(4))
    then have "map (\<lambda>a. (heap st ! a)\<lparr>collection_info.posts := None\<rparr>) (collections st) ! k
        = (heap st ! (?n + k))\<lparr>collection_info.posts := None\<rparr>"
      by (simp add: parts(4))
    also have "\<dots> = (?cs ! k)\<lparr>collection_info.posts := None\<rparr>"
      by (simp add: new [OF k])
    also have "\<dots> = ?cs ! k"
      using none [OF k] by simp
    finally show "map (\<lambda>a. (heap st ! a)\<lparr>collection_info.posts := None\<rparr>) (collections st) ! k
        = ?cs ! k" .
  qed
  have each: "collection_info.posts (heap st ! a) =
      Some (filter (\<lambda>post. collection post = Some (collection_info.slug (heap st ! a))) (posts st))"
    if "a \<in> set (collections st)" for a
    using exported_collection_posts [OF assms that] .
  have empty: "collection_info.posts (heap st ! a) = Some []"
    if "a \<in> set (collections st)"
      and "\<forall>post \<in> set (posts st). collection post \<noteq> Some (collection_info.slug (heap st ! a))"
    for a
    using each [OF that(1)] that(2) by (simp add: filter_empty_conv)
  from same parts(2) each empty show ?thesis
    by (auto intro: subseq_filter_left)
qed

lemma site_loaded: "loadContent siteEnv = Inr siteExports"
proof -
  have "\<not> isl (loadContent siteEnv)" by code_simp
  then show ?thesis by (simp add: siteExports_def)
qed

text \<open>
  C8, witness: on the small site the collection \<open>my-series\<close> gets the two
  posts \<open>first\<close> and the post \<open>third\<close>, in the order of the exported posts, and
  the mapped collection, which no post names, gets the empty list.
\<close>

theorem cross_linking_witness:
  "loadContent siteEnv = Inr siteExports \<and>
   collections siteExports = [3, 4, 5] \<and>
   map slug (posts siteExports) = [''second'', ''first'', ''first'', ''third''] \<and>
   collection_info.slug (heap siteExports ! 4) = ''my-series'' \<and>
   map (\<lambda>post. (slug post, locale' post))
     (filter (\<lambda>post. collection post = Some ''my-series'') (posts siteExports)) =
     [(''first'', Some ''en''), (''first'', Some ''fr''), (''third'', Some ''en'')] \<and>
   collection_info.posts (heap siteExports ! 4) =
     Some (filter (\<lambda>post. collection post = Some ''my-series'') (posts siteExports)) \<and>
   collection_info.slug (heap siteExports ! 3) = ''mapped'' \<and>
   list_all (\<lambda>post. collection post \<noteq> Some ''mapped'') (posts siteExports) \<and>
   collection_info.posts (heap siteExports ! 3) = Some []"
proof -
  have cs: "collections siteExports = [3, 4, 5]" by code_simp
  have ps: "map slug (posts siteExports) = [''second'', ''first'', ''first'', ''third'']"
    by code_simp
  have s4: "collection_info.slug (heap siteExports ! 4) = ''my-series''" by code_simp
  have s3: "collection_info.slug (heap siteExports ! 3) = ''mapped''" by code_simp
  have f4: "map (\<lambda>post. (slug post, locale' post))
     (filter (\<lambda>post. collection post = Some ''my-series'') (posts siteExports)) =
     [(''first'', Some ''en''), (''first'', Some ''fr''), (''third'', Some ''en'')]"
    by code_simp
  have n3: "list_all (\<lambda>post. collection post \<noteq> Some ''mapped'') (posts siteExports)"
    by code_simp
  note linked = cross_linking [OF site_loaded]
  from linked cs s4 have p4: "collection_info.posts (heap siteExports ! 4) =
     Some (filter (\<lambda>post. collection post = Some ''my-series'') (posts siteExports))"
    by simp
  from linked cs s3 n3 have p3: "collection_info.posts (heap siteExports ! 3) = Some []"
    by (simp add: list_all_iff)
  from site_loaded cs ps s4 f4 p4 s3 n3 p3 show ?thesis by blast
qed

subsection \<open>The collections embedded in posts\<close>







end
